theory Spec2Isabelle
  imports Complex_Main
begin

section \<open>Python values, floats and exceptions\<close>

text \<open>
  The daemon (\<^verbatim>\<open>daemon.py\<close>) moves floats from the market-data provider into SQLite.
  A Python float is either NaN or a number. The figures that are only stored or compared
  (prices, statement metrics) are kept as the reals they denote. Python's \<^verbatim>\<open>None\<close> is
  kept apart from NaN: \<^verbatim>\<open>price is None\<close> is false for NaN. SQLite stores a bound NaN as
  NULL, so a REAL column is a \<^typ>\<open>real option\<close> with \<^term>\<open>None\<close> for NULL.
  An exception is a \<^verbatim>\<open>TypeError\<close>, an exception raised by the provider, or one raised by
  the SQLite connection (\<^verbatim>\<open>sqlite3.Error\<close>).
\<close>

datatype pyfloat = NaN | Num real

datatype pyval = PNone | PFloat pyfloat | PStr string

datatype py_error = TypeError | ProviderError string | StoreError string

datatype sqlval = SNull | SReal real | SText string

fun to_sql :: "pyfloat \<Rightarrow> real option" where
  "to_sql NaN = None"
| "to_sql (Num r) = Some r"

fun bind_param :: "pyval \<Rightarrow> sqlval" where
  "bind_param PNone = SNull"
| "bind_param (PFloat NaN) = SNull"
| "bind_param (PFloat (Num r)) = SReal r"
| "bind_param (PStr s) = SText s"

fun py_abs :: "pyfloat \<Rightarrow> pyfloat" where
  "py_abs NaN = NaN"
| "py_abs (Num r) = Num \<bar>r\<bar>"

fun fmul :: "pyfloat \<Rightarrow> pyfloat \<Rightarrow> pyfloat" where
  "fmul (Num a) (Num b) = Num (a * b)"
| "fmul _ _ = NaN"

fun fadd :: "pyfloat \<Rightarrow> pyfloat \<Rightarrow> pyfloat" where
  "fadd (Num a) (Num b) = Num (a + b)"
| "fadd _ _ = NaN"

definition bind_err :: "'e + 'a \<Rightarrow> ('a \<Rightarrow> 'e + 'b) \<Rightarrow> 'e + 'b" where
  "bind_err x f = (case x of Inl e \<Rightarrow> Inl e | Inr a \<Rightarrow> f a)"

section \<open>Binary64 arithmetic\<close>

text \<open>
  The poll interval of the daemon is computed in floating point, and its exact value
  depends on the rounding. A finite binary64 number is the real it denotes;
  \<open>binary64 x\<close> is the binary64 number nearest to the real \<open>x\<close>, ties to the even
  significand (53 bits), for results in the normal range (no overflow, no subnormals).
  A float literal and a float product are the rounded exact values.
\<close>

definition round_even :: "real \<Rightarrow> int" where
  "round_even y = (let f = \<lfloor>y\<rfloor> in
     if y - of_int f < 1 / 2 then f
     else if y - of_int f > 1 / 2 then f + 1
     else if even f then f else f + 1)"

definition binary64 :: "real \<Rightarrow> real" where
  "binary64 x = (if x = 0 then 0 else
     (let e = \<lfloor>log 2 \<bar>x\<bar>\<rfloor>; u = 2 powr (of_int e - 52)
      in sgn x * (of_int (round_even (\<bar>x\<bar> / u)) * u)))"

definition fl_mul :: "real \<Rightarrow> real \<Rightarrow> real" where
  "fl_mul a b = binary64 (a * b)"

section \<open>Strings: \<^verbatim>\<open>str.strip\<close> and \<^verbatim>\<open>str.upper\<close> on ASCII text\<close>

definition py_isspace :: "char \<Rightarrow> bool" where
  "py_isspace c = (let n = (of_char c :: nat) in (9 \<le> n \<and> n \<le> 13) \<or> (28 \<le> n \<and> n \<le> 32))"

definition strip :: "string \<Rightarrow> string" where
  "strip s = rev (dropWhile py_isspace (rev (dropWhile py_isspace s)))"

definition is_lower :: "char \<Rightarrow> bool" where
  "is_lower c = (let n = (of_char c :: nat) in 97 \<le> n \<and> n \<le> 122)"

definition upper_char :: "char \<Rightarrow> char" where
  "upper_char c = (if is_lower c then char_of ((of_char c :: nat) - 32) else c)"

definition upper :: "string \<Rightarrow> string" where
  "upper s = map upper_char s"

section \<open>Field resolution on a pandas row\<close>

text \<open>
  A row of a transposed statement frame is a pandas Series: index labels with float
  values, kept as a list because labels may repeat (two labels that differ only in
  surrounding whitespace coincide after \<^verbatim>\<open>row.index.str.strip()\<close>).
  \<^verbatim>\<open>row.get(key, default)\<close> returns the default when the label is absent, the scalar
  when it occurs once, and a sub-series when it occurs several times; \<^verbatim>\<open>float\<close> of a
  sub-series raises TypeError.
\<close>

type_synonym series = "(string \<times> pyfloat) list"

datatype lookup = Scalar pyfloat | SubSeries "pyfloat list"

definition strip_index :: "series \<Rightarrow> series" where
  "strip_index row = map (\<lambda>(k, v). (strip k, v)) row"

definition values_at :: "series \<Rightarrow> string \<Rightarrow> pyfloat list" where
  "values_at row key = map snd (filter (\<lambda>(k, v). k = key) row)"

definition series_get :: "series \<Rightarrow> string \<Rightarrow> lookup \<Rightarrow> lookup" where
  "series_get row key dflt =
     (case values_at row key of [] \<Rightarrow> dflt | [v] \<Rightarrow> Scalar v | vs \<Rightarrow> SubSeries vs)"

fun py_float :: "lookup \<Rightarrow> py_error + pyfloat" where
  "py_float (Scalar v) = Inr v"
| "py_float (SubSeries vs) = Inl TypeError"

text \<open>
  The nested expression \<^verbatim>\<open>row.get(c1, row.get(c2, d))\<close> for a chain of candidates:
  Python evaluates the inner default first, so the chain is a right fold.
\<close>

definition resolve :: "series \<Rightarrow> string list \<Rightarrow> lookup \<Rightarrow> lookup" where
  "resolve row chain d = foldr (\<lambda>c acc. series_get row c acc) chain d"

abbreviation zero :: lookup where
  "zero \<equiv> Scalar (Num 0)"

section \<open>The statement tables\<close>

text \<open>
  \<^verbatim>\<open>init_db.py\<close> creates \<^verbatim>\<open>balance_sheet\<close>, \<^verbatim>\<open>income_statement\<close> and
  \<^verbatim>\<open>cashflow_statement\<close> with \<^verbatim>\<open>id INTEGER PRIMARY KEY AUTOINCREMENT\<close> as their only
  key; there is no uniqueness constraint on (ticker, date). A table is its rows in
  insertion order together with the AUTOINCREMENT high-water mark.
\<close>

record 'm stmt_row =
  row_id :: nat
  row_ticker :: string
  row_date :: string
  row_metrics :: 'm

record 'm stmt_table =
  tbl_rows :: "'m stmt_row list"
  tbl_seq :: nat

record balance_metrics =
  total_assets :: "real option"
  total_liabilities :: "real option"
  total_debt :: "real option"
  total_cash :: "real option"

record income_metrics =
  ebit :: "real option"
  ebitda :: "real option"
  net_income :: "real option"
  total_revenue :: "real option"

record cashflow_metrics =
  operating_cash_flow :: "real option"
  capital_expenditures :: "real option"

definition next_rowid :: "'m stmt_table \<Rightarrow> nat" where
  "next_rowid t = Suc (max (tbl_seq t) (fold max (map row_id (tbl_rows t)) 0))"

text \<open>
  \<^verbatim>\<open>INSERT OR REPLACE\<close> without an id: SQLite assigns a fresh rowid, removes the rows
  that conflict on a uniqueness constraint (only the id here) and inserts.
\<close>

definition insert_or_replace_stmt ::
  "'m stmt_table \<Rightarrow> string \<Rightarrow> string \<Rightarrow> 'm \<Rightarrow> 'm stmt_table" where
  "insert_or_replace_stmt t tk d m =
     (let i = next_rowid t in
      \<lparr>tbl_rows = filter (\<lambda>r. row_id r \<noteq> i) (tbl_rows t)
                   @ [\<lparr>row_id = i, row_ticker = tk, row_date = d, row_metrics = m\<rparr>],
       tbl_seq = i\<rparr>)"

section \<open>Statement frames and the three metric extractions\<close>

text \<open>
  A provider frame has field labels as its index and one column per period-end date;
  \<^verbatim>\<open>.T.iterrows()\<close> yields one series per period. Dates are kept as the text
  \<^verbatim>\<open>str(date.date())\<close> produces.
\<close>

record frame =
  frame_fields :: "string list"
  frame_periods :: "(string \<times> pyfloat list) list"

definition frame_empty :: "frame \<Rightarrow> bool" where
  "frame_empty f = (frame_fields f = [] \<or> frame_periods f = [])"

definition iterrows :: "frame \<Rightarrow> (string \<times> series) list" where
  "iterrows f = map (\<lambda>(d, vs). (d, zip (frame_fields f) vs)) (frame_periods f)"

definition balance_values :: "series \<Rightarrow> py_error + balance_metrics" where
  "balance_values row =
     bind_err (py_float (series_get row ''Total Assets'' zero)) (\<lambda>a.
     bind_err (py_float (series_get row ''Total Liabilities Net Minority Interest''
                 (series_get row ''Total Non Current Liabilities Net Minority Interest'' zero))) (\<lambda>l.
     bind_err (py_float (series_get row ''Total Debt'' (series_get row ''Long Term Debt'' zero))) (\<lambda>d.
     bind_err (py_float (series_get row ''Cash And Cash Equivalents''
                 (series_get row ''Cash Cash Equivalents And Short Term Investments'' zero))) (\<lambda>c.
     Inr \<lparr>total_assets = to_sql a, total_liabilities = to_sql l,
          total_debt = to_sql d, total_cash = to_sql c\<rparr>))))"

definition income_values :: "series \<Rightarrow> py_error + income_metrics" where
  "income_values row =
     bind_err (py_float (series_get row ''EBIT'' (series_get row ''Operating Income'' zero))) (\<lambda>a.
     bind_err (py_float (series_get row ''EBITDA'' (series_get row ''Operating Income'' zero))) (\<lambda>b.
     bind_err (py_float (series_get row ''Net Income''
                 (series_get row ''Net Income Continuous Operations'' zero))) (\<lambda>n.
     bind_err (py_float (series_get row ''Total Revenue'' (series_get row ''Operating Revenue'' zero))) (\<lambda>r.
     Inr \<lparr>ebit = to_sql a, ebitda = to_sql b, net_income = to_sql n, total_revenue = to_sql r\<rparr>))))"

definition cashflow_values :: "series \<Rightarrow> py_error + cashflow_metrics" where
  "cashflow_values row =
     bind_err (py_float (series_get row ''Operating Cash Flow''
                 (series_get row ''Cash Flow From Continuing Operating Activities'' zero))) (\<lambda>a.
     bind_err (py_float (series_get row ''Capital Expenditure''
                 (series_get row ''Net PPE Purchase And Sale'' zero))) (\<lambda>c.
     Inr \<lparr>operating_cash_flow = to_sql a, capital_expenditures = to_sql (py_abs c)\<rparr>))"

text \<open>
  The body of one \<^verbatim>\<open>for date, row in X.iterrows()\<close> loop. An exception leaves the loop
  with the rows inserted so far still in the table; the result pairs the exception, if
  any, with the table at that point.
\<close>

fun store_rows ::
  "(series \<Rightarrow> py_error + 'm) \<Rightarrow> string \<Rightarrow> (string \<times> series) list \<Rightarrow> 'm stmt_table
     \<Rightarrow> py_error option \<times> 'm stmt_table" where
  "store_rows extract ticker [] t = (None, t)"
| "store_rows extract ticker ((date, row) # rest) t =
     (case extract (strip_index row) of
        Inl e \<Rightarrow> (Some e, t)
      | Inr m \<Rightarrow> store_rows extract ticker rest (insert_or_replace_stmt t ticker date m))"

text \<open>
  One statement kind: the property access may raise, may give \<^verbatim>\<open>None\<close> or an empty
  frame (both skipped), or a frame whose periods are stored.
\<close>

definition store_statement ::
  "(series \<Rightarrow> py_error + 'm) \<Rightarrow> string \<Rightarrow> py_error + frame option \<Rightarrow> 'm stmt_table
     \<Rightarrow> py_error option \<times> 'm stmt_table" where
  "store_statement extract ticker src t =
     (case src of
        Inl e \<Rightarrow> (Some e, t)
      | Inr None \<Rightarrow> (None, t)
      | Inr (Some f) \<Rightarrow>
          if frame_empty f then (None, t) else store_rows extract ticker (iterrows f) t)"

section \<open>The database\<close>

text \<open>
  The tables of \<^verbatim>\<open>portfolio.db\<close> the daemon reads or writes, as \<^verbatim>\<open>init_db\<close> declares
  them: \<^verbatim>\<open>prices\<close> and \<^verbatim>\<open>stocks\<close> have primary key \<^verbatim>\<open>ticker\<close>, \<^verbatim>\<open>price_history\<close>
  has primary key (ticker, date), \<^verbatim>\<open>update_requests\<close> an AUTOINCREMENT id.
\<close>

record price_row =
  pr_ticker :: string
  pr_date :: string
  pr_close :: "real option"
  pr_last_updated :: string

record history_row =
  ph_ticker :: string
  ph_date :: string
  ph_close :: "real option"
  ph_last_updated :: string

record request_row =
  req_id :: nat
  req_ticker :: string
  req_requested_at :: string
  req_processed :: int

record stock_row =
  st_ticker :: string
  st_name :: sqlval
  st_currency :: sqlval
  st_sector :: sqlval
  st_shares_outstanding :: sqlval
  st_price :: "real option"
  st_market_cap :: sqlval
  st_beta :: sqlval
  st_growth_rate :: real
  st_discount_rate :: "real option"
  st_tax_rate :: real
  st_last_updated :: string

record db =
  prices :: "price_row list"
  price_history :: "history_row list"
  update_requests :: "request_row list"
  requests_seq :: nat
  stocks :: "stock_row list"
  balance_sheet :: "balance_metrics stmt_table"
  income_statement :: "income_metrics stmt_table"
  cashflow_statement :: "cashflow_metrics stmt_table"

text \<open>
  A connection sees its own uncommitted writes; \<^verbatim>\<open>commit\<close> publishes them and
  \<^verbatim>\<open>close\<close> leaves the committed state behind.
\<close>

record conn =
  committed :: db
  working :: db

definition connect :: "db \<Rightarrow> conn" where
  "connect d = \<lparr>committed = d, working = d\<rparr>"

definition execute :: "(db \<Rightarrow> db) \<Rightarrow> conn \<Rightarrow> conn" where
  "execute stmt c = c\<lparr>working := stmt (working c)\<rparr>"

definition commit :: "conn \<Rightarrow> conn" where
  "commit c = c\<lparr>committed := working c\<rparr>"

definition close :: "conn \<Rightarrow> db" where
  "close c = committed c"

text \<open>The clock readings a batch uses: pandas' local now, SQLite's timestamp and date.\<close>

record clock =
  py_now :: string
  sql_now :: string
  sql_today :: string

definition insert_or_replace_stock :: "stock_row \<Rightarrow> db \<Rightarrow> db" where
  "insert_or_replace_stock r d =
     d\<lparr>stocks := filter (\<lambda>x. st_ticker x \<noteq> st_ticker r) (stocks d) @ [r]\<rparr>"

definition insert_or_replace_price :: "price_row \<Rightarrow> db \<Rightarrow> db" where
  "insert_or_replace_price r d =
     d\<lparr>prices := filter (\<lambda>x. pr_ticker x \<noteq> pr_ticker r) (prices d) @ [r]\<rparr>"

definition insert_or_ignore_history :: "history_row \<Rightarrow> db \<Rightarrow> db" where
  "insert_or_ignore_history r d =
     (if \<exists>x \<in> set (price_history d). ph_ticker x = ph_ticker r \<and> ph_date x = ph_date r
      then d
      else d\<lparr>price_history := price_history d @ [r]\<rparr>)"

section \<open>The provider\<close>

text \<open>
  What one \<^verbatim>\<open>yf.Ticker\<close> object answers. Every access may raise; \<^verbatim>\<open>history\<close> is the
  Close column of the one-day frame (empty list for an empty frame).
\<close>

record yf_ticker =
  yf_fast_last_price :: "py_error + pyfloat option"
  yf_history_close :: "py_error + pyfloat list"
  yf_info :: "py_error + (string \<rightharpoonup> pyval) option"
  yf_balance_sheet :: "py_error + frame option"
  yf_financials :: "py_error + frame option"
  yf_cashflow :: "py_error + frame option"

datatype event =
    SKIP string
  | SYNC string
  | UPDATE string pyfloat pyval
  | ERROR string py_error
  | FUNDAMENTALS_ERROR string py_error
  | WAKE "string list"
  | REFRESH_EMPTY
  | REFRESH nat

section \<open>\<^verbatim>\<open>fetch_and_store_fundamentals\<close>\<close>

text \<open>
  The body of the single \<^verbatim>\<open>try\<close>: balance sheet, then income statement, then
  cashflow. The first exception ends it; what was inserted before stays in the
  connection's working state.
\<close>

definition try_fundamentals :: "yf_ticker \<Rightarrow> string \<Rightarrow> db \<Rightarrow> py_error option \<times> db" where
  "try_fundamentals t ticker d =
     (case store_statement balance_values ticker (yf_balance_sheet t) (balance_sheet d) of
        (Some e, b) \<Rightarrow> (Some e, d\<lparr>balance_sheet := b\<rparr>)
      | (None, b) \<Rightarrow>
     (case store_statement income_values ticker (yf_financials t) (income_statement d) of
        (Some e, i) \<Rightarrow> (Some e, d\<lparr>balance_sheet := b, income_statement := i\<rparr>)
      | (None, i) \<Rightarrow>
     (case store_statement cashflow_values ticker (yf_cashflow t) (cashflow_statement d) of
        (Some e, c) \<Rightarrow>
          (Some e, d\<lparr>balance_sheet := b, income_statement := i, cashflow_statement := c\<rparr>)
      | (None, c) \<Rightarrow>
          (None, d\<lparr>balance_sheet := b, income_statement := i, cashflow_statement := c\<rparr>))))"

definition fetch_and_store_fundamentals ::
  "yf_ticker \<Rightarrow> string \<Rightarrow> conn \<Rightarrow> conn \<times> event list" where
  "fetch_and_store_fundamentals t ticker c =
     (case try_fundamentals t ticker (working c) of
        (None, d) \<Rightarrow> (commit (c\<lparr>working := d\<rparr>), [])
      | (Some e, d) \<Rightarrow> (c\<lparr>working := d\<rparr>, [FUNDAMENTALS_ERROR ticker e]))"

section \<open>\<^verbatim>\<open>fetch_and_store_batch\<close>\<close>

definition resolve_price :: "yf_ticker \<Rightarrow> py_error + pyfloat option" where
  "resolve_price t =
     (let price = (case yf_fast_last_price t of Inl _ \<Rightarrow> None | Inr p \<Rightarrow> p) in
      if price = None \<or> price = Some (Num 0)
      then bind_err (yf_history_close t)
             (\<lambda>closes. Inr (if closes \<noteq> [] then Some (last closes) else price))
      else Inr price)"

definition dict_get :: "(string \<rightharpoonup> pyval) \<Rightarrow> string \<Rightarrow> pyval \<Rightarrow> pyval" where
  "dict_get m k dflt = (case m k of None \<Rightarrow> dflt | Some v \<Rightarrow> v)"

fun truthy :: "pyval \<Rightarrow> bool" where
  "truthy PNone = False"
| "truthy (PFloat NaN) = True"
| "truthy (PFloat (Num r)) = (r \<noteq> 0)"
| "truthy (PStr s) = (s \<noteq> [])"

fun mul_float :: "pyval \<Rightarrow> pyfloat \<Rightarrow> py_error + pyfloat" where
  "mul_float (PFloat a) b = Inr (fmul a b)"
| "mul_float _ b = Inl TypeError"

definition growth_rate :: real where "growth_rate = 0.03"
definition rf :: real where "rf = 0.04"
definition rm :: real where "rm = 0.08"
definition tax_rate :: real where "tax_rate = 0.21"

text \<open>
  Lines 133 to 145: the snapshot row. \<^verbatim>\<open>price * shares\<close> is evaluated before
  \<^verbatim>\<open>info.get("marketCap", ...)\<close> looks the key up, so it raises for a non-numeric
  share count even when the market cap is present.
\<close>

definition snapshot ::
  "clock \<Rightarrow> string \<Rightarrow> pyfloat \<Rightarrow> (string \<rightharpoonup> pyval) \<Rightarrow> py_error + (stock_row \<times> pyval)" where
  "snapshot clk ticker price info =
     (let shares = dict_get info ''sharesOutstanding'' (PFloat (Num 0)) in
      bind_err (mul_float shares price) (\<lambda>ps.
      let market_cap = dict_get info ''marketCap'' (PFloat ps);
          beta = dict_get info ''beta'' PNone;
          name = dict_get info ''shortName'' (PStr ticker);
          currency = dict_get info ''currency'' (PStr ''USD'');
          sector = dict_get info ''sector'' PNone in
      bind_err (mul_float (if truthy beta then beta else PFloat (Num 1)) (Num (rm - rf))) (\<lambda>prem.
      Inr (\<lparr>st_ticker = ticker, st_name = bind_param name, st_currency = bind_param currency,
            st_sector = bind_param sector, st_shares_outstanding = bind_param shares,
            st_price = to_sql price, st_market_cap = bind_param market_cap,
            st_beta = bind_param beta, st_growth_rate = growth_rate,
            st_discount_rate = to_sql (fadd (Num rf) prem), st_tax_rate = tax_rate,
            st_last_updated = sql_now clk\<rparr>, currency))))"

text \<open>
  The body of the per-ticker \<^verbatim>\<open>try\<close> (lines 117 to 171): the exception raised, if
  any, the connection at that point, and the lines printed.
\<close>

definition ticker_body ::
  "(string \<Rightarrow> py_error + yf_ticker) \<Rightarrow> clock \<Rightarrow> string \<Rightarrow> conn
     \<Rightarrow> py_error option \<times> conn \<times> event list" where
  "ticker_body yf clk ticker c =
     (case yf ticker of
        Inl e \<Rightarrow> (Some e, c, [])
      | Inr t \<Rightarrow>
     (case resolve_price t of
        Inl e \<Rightarrow> (Some e, c, [])
      | Inr None \<Rightarrow> (None, c, [SKIP ticker])
      | Inr (Some price) \<Rightarrow>
     (case yf_info t of
        Inl e \<Rightarrow> (Some e, c, [])
      | Inr io \<Rightarrow>
     (case snapshot clk ticker price (case io of None \<Rightarrow> Map.empty | Some m \<Rightarrow> m) of
        Inl e \<Rightarrow> (Some e, c, [])
      | Inr (row, currency) \<Rightarrow>
          (let c1 = execute (insert_or_replace_stock row) c;
               c2 = execute (insert_or_replace_price
                      \<lparr>pr_ticker = ticker, pr_date = py_now clk, pr_close = to_sql price,
                       pr_last_updated = sql_now clk\<rparr>) c1;
               c3 = execute (insert_or_ignore_history
                      \<lparr>ph_ticker = ticker, ph_date = sql_today clk, ph_close = to_sql price,
                       ph_last_updated = sql_now clk\<rparr>) c2;
               (c4, ev) = fetch_and_store_fundamentals t ticker c3
           in (None, c4, [SYNC ticker] @ ev @ [UPDATE ticker price currency]))))))"

definition process_ticker ::
  "(string \<Rightarrow> py_error + yf_ticker) \<Rightarrow> clock \<Rightarrow> string \<Rightarrow> conn \<Rightarrow> conn \<times> event list" where
  "process_ticker yf clk ticker c =
     (case ticker_body yf clk ticker c of
        (None, c', ev) \<Rightarrow> (c', ev)
      | (Some e, c', ev) \<Rightarrow> (c', ev @ [ERROR ticker e]))"

fun batch_loop ::
  "(string \<Rightarrow> py_error + yf_ticker) \<Rightarrow> clock \<Rightarrow> string list \<Rightarrow> conn \<Rightarrow> conn \<times> event list" where
  "batch_loop yf clk [] c = (c, [])"
| "batch_loop yf clk (ticker # rest) c =
     (let (c1, ev1) = process_ticker yf clk ticker c;
          (c2, ev2) = batch_loop yf clk rest c1
      in (c2, ev1 @ ev2))"

definition fetch_and_store_batch ::
  "(string \<Rightarrow> py_error + yf_ticker) \<Rightarrow> clock \<Rightarrow> string list \<Rightarrow> db \<Rightarrow> db \<times> event list" where
  "fetch_and_store_batch yf clk tickers d =
     (if tickers = [] then (d, [])
      else (let (c, ev) = batch_loop yf clk (map upper tickers) (connect d)
            in (close (commit c), ev)))"

text \<open>
  Lines 112 to 113 and 176 to 178 are outside the per-ticker \<^verbatim>\<open>try\<close>. An exception of
  \<^verbatim>\<open>sqlite3.connect\<close> or of the PRAGMA, of the final commit, or of the checkpoint and
  \<^verbatim>\<open>close\<close> after it leaves the function; the process can also be terminated inside
  the loop, after some number of tickers. What the database file holds then is what was
  committed: the file as it was before the connection, the commits made by
  \<^verbatim>\<open>fetch_and_store_fundamentals\<close> on the way, or, once the final commit is done, the
  working state.
\<close>

datatype fault =
    NoFault
  | ConnectRaises py_error
  | Killed nat
  | CommitRaises py_error
  | CloseRaises py_error

datatype ending = Returned | Raised py_error | Terminated

definition fetch_and_store_batch_io ::
  "fault \<Rightarrow> (string \<Rightarrow> py_error + yf_ticker) \<Rightarrow> clock \<Rightarrow> string list \<Rightarrow> db
     \<Rightarrow> ending \<times> db \<times> event list" where
  "fetch_and_store_batch_io f yf clk tickers d =
     (if tickers = [] then (Returned, d, [])
      else (case f of
        ConnectRaises e \<Rightarrow> (Raised e, d, [])
      | Killed n \<Rightarrow>
          (let (c, ev) = batch_loop yf clk (take n (map upper tickers)) (connect d)
           in (Terminated, committed c, ev))
      | CommitRaises e \<Rightarrow>
          (let (c, ev) = batch_loop yf clk (map upper tickers) (connect d)
           in (Raised e, committed c, ev))
      | CloseRaises e \<Rightarrow>
          (let (c, ev) = batch_loop yf clk (map upper tickers) (connect d)
           in (Raised e, committed (commit c), ev))
      | NoFault \<Rightarrow>
          (let (c, ev) = batch_loop yf clk (map upper tickers) (connect d)
           in (Returned, close (commit c), ev))))"

section \<open>\<^verbatim>\<open>refresh_all_tickers\<close> and \<^verbatim>\<open>run_daemon\<close>\<close>

definition BATCH_SIZE :: nat where "BATCH_SIZE = 50"
definition SLEEP_IDLE :: real where "SLEEP_IDLE = 5.0"
definition SLEEP_ACTIVE :: real where "SLEEP_ACTIVE = binary64 0.2"
definition REFRESH_INTERVAL :: real where "REFRESH_INTERVAL = 300"

text \<open>
  \<^verbatim>\<open>tickers[i:i + n]\<close> for \<^verbatim>\<open>i\<close> in \<^verbatim>\<open>range(0, len(tickers), n)\<close>; the step is the
  positive constant \<^verbatim>\<open>BATCH_SIZE\<close>.
\<close>

function chunks :: "nat \<Rightarrow> 'a list \<Rightarrow> 'a list list" where
  "chunks n xs = (if n = 0 \<or> xs = [] then [] else take n xs # chunks n (drop n xs))"
  by pat_completeness auto
termination
  by (relation "measure (\<lambda>(n, xs). length xs)") auto

fun run_batches ::
  "(string \<Rightarrow> py_error + yf_ticker) \<Rightarrow> clock \<Rightarrow> string list list \<Rightarrow> db \<Rightarrow> db \<times> event list" where
  "run_batches yf clk [] d = (d, [])"
| "run_batches yf clk (batch # rest) d =
     (let (d1, ev1) = fetch_and_store_batch yf clk batch d;
          (d2, ev2) = run_batches yf clk rest d1
      in (d2, ev1 @ ev2))"

definition refresh_all_tickers ::
  "(string \<Rightarrow> py_error + yf_ticker) \<Rightarrow> clock \<Rightarrow> db \<Rightarrow> db \<times> event list" where
  "refresh_all_tickers yf clk d =
     (let tickers = remdups (map pr_ticker (prices d)) in
      if tickers = [] then (d, [REFRESH_EMPTY])
      else (let (d', ev) = run_batches yf clk (chunks BATCH_SIZE tickers) d
            in (d', REFRESH (length tickers) # ev)))"

text \<open>
  The two scheduling variables of \<^verbatim>\<open>run_daemon\<close>. \<^verbatim>\<open>sleep_time\<close> holds a binary64
  number; 5.0 and 1.5 are binary64 numbers, 0.2 is not and is rounded. The clock
  readings are floats a few hundred seconds apart, whose difference is exact.
\<close>

record daemon_state =
  last_refresh_time :: real
  sleep_time :: real

text \<open>
  What one pass of the \<^verbatim>\<open>while True\<close> loop reads from outside: the provider, the
  clocks, and the value of \<^verbatim>\<open>time.time()\<close> at the \<^verbatim>\<open>elif\<close> test and after a refresh.
\<close>

record iter_env =
  env_yf :: "string \<Rightarrow> py_error + yf_ticker"
  env_clock :: clock
  env_time :: real
  env_time_after :: real

definition select_pending :: "db \<Rightarrow> (nat \<times> string) list" where
  "select_pending d =
     map (\<lambda>r. (req_id r, req_ticker r)) (filter (\<lambda>r. req_processed r = 0) (update_requests d))"

definition delete_request :: "nat \<Rightarrow> db \<Rightarrow> db" where
  "delete_request rid d = d\<lparr>update_requests := filter (\<lambda>r. req_id r \<noteq> rid) (update_requests d)\<rparr>"

definition delete_requests :: "nat list \<Rightarrow> db \<Rightarrow> db" where
  "delete_requests rids d = fold delete_request rids d"

text \<open>
  Lines 206 to 221, up to the call of the batch fetcher: the requests read and the
  database file as it is once the connection is closed.
\<close>

definition dequeue :: "db \<Rightarrow> (nat \<times> string) list \<times> db" where
  "dequeue d =
     (let c = connect d;
          requests = select_pending (working c);
          request_ids = map fst requests
      in (requests, close (commit (execute (delete_requests request_ids) c))))"

text \<open>
  Lines 212 to 221, the branch for pending requests, with the ways the fetcher can end.
  \<^verbatim>\<open>run_daemon\<close> has no handler: when the fetcher does not return, neither does the
  daemon, and the database file stays as the fetcher left it.
\<close>

definition serve_requests ::
  "fault \<Rightarrow> iter_env \<Rightarrow> daemon_state \<Rightarrow> db \<Rightarrow> ending \<times> daemon_state \<times> db \<times> event list" where
  "serve_requests f env s d =
     (let (requests, d1) = dequeue d;
          tickers = map snd requests;
          (fin, d2, ev) = fetch_and_store_batch_io f (env_yf env) (env_clock env) tickers d1
      in (fin, s\<lparr>sleep_time := SLEEP_ACTIVE\<rparr>, d2, WAKE tickers # ev))"

text \<open>Line 230: \<^verbatim>\<open>min(sleep_time * 1.5, SLEEP_IDLE)\<close>, the product rounded to binary64.\<close>

definition backoff :: "real \<Rightarrow> real" where
  "backoff x = min (fl_mul x 1.5) SLEEP_IDLE"

text \<open>
  One pass of the loop body: the new scheduling state (whose \<^verbatim>\<open>sleep_time\<close> is the
  interval then slept), the database and the lines printed.
\<close>

definition daemon_iteration ::
  "iter_env \<Rightarrow> daemon_state \<Rightarrow> db \<Rightarrow> daemon_state \<times> db \<times> event list" where
  "daemon_iteration env s d =
     (if select_pending d \<noteq> [] then
        (let (requests, d1) = dequeue d;
             tickers = map snd requests;
             (d2, ev) = fetch_and_store_batch (env_yf env) (env_clock env) tickers d1
         in (s\<lparr>sleep_time := SLEEP_ACTIVE\<rparr>, d2, WAKE tickers # ev))
      else if env_time env - last_refresh_time s \<ge> REFRESH_INTERVAL then
        (let (d1, ev) = refresh_all_tickers (env_yf env) (env_clock env) d
         in (s\<lparr>last_refresh_time := env_time_after env\<rparr>, d1, ev))
      else (s\<lparr>sleep_time := backoff (sleep_time s)\<rparr>, d, []))"

text \<open>
  The start of \<^verbatim>\<open>run_daemon\<close> (lines 198 to 203) and a bounded prefix of the endless
  loop: one environment per pass, the list of intervals slept as a result.
\<close>

definition daemon_start :: "iter_env \<Rightarrow> db \<Rightarrow> daemon_state \<times> db \<times> event list" where
  "daemon_start env d =
     (let (d1, ev) = refresh_all_tickers (env_yf env) (env_clock env) d
      in (\<lparr>last_refresh_time = env_time_after env, sleep_time = SLEEP_IDLE\<rparr>, d1, ev))"

fun daemon_passes ::
  "iter_env list \<Rightarrow> daemon_state \<Rightarrow> db \<Rightarrow> daemon_state \<times> db \<times> real list" where
  "daemon_passes [] s d = (s, d, [])"
| "daemon_passes (env # envs) s d =
     (let (s1, d1, ev) = daemon_iteration env s d;
          (s2, d2, sleeps) = daemon_passes envs s1 d1
      in (s2, d2, sleep_time s1 # sleeps))"

section \<open>Fixtures and notions used in the statements\<close>

definition empty_table :: "'m stmt_table" where
  "empty_table = \<lparr>tbl_rows = [], tbl_seq = 0\<rparr>"

definition empty_db :: db where
  "empty_db = \<lparr>prices = [], price_history = [], update_requests = [], requests_seq = 0,
     stocks = [], balance_sheet = empty_table, income_statement = empty_table,
     cashflow_statement = empty_table\<rparr>"

definition clock0 :: clock where
  "clock0 = \<lparr>py_now = ''2024-05-01 10:00:00'', sql_now = ''2024-05-01 08:00:00'',
     sql_today = ''2024-05-01''\<rparr>"

definition priced :: "real \<Rightarrow> yf_ticker" where
  "priced p = \<lparr>yf_fast_last_price = Inr (Some (Num p)), yf_history_close = Inr [],
     yf_info = Inr None, yf_balance_sheet = Inr None, yf_financials = Inr None,
     yf_cashflow = Inr None\<rparr>"

definition one_period :: "string \<Rightarrow> pyfloat \<Rightarrow> frame" where
  "one_period field v = \<lparr>frame_fields = [field], frame_periods = [(''2023-12-31'', [v])]\<rparr>"

definition capex_ok :: "cashflow_metrics \<Rightarrow> bool" where
  "capex_ok m = (case capital_expenditures m of None \<Rightarrow> True | Some v \<Rightarrow> 0 \<le> v)"

definition grows :: "'a set \<Rightarrow> 'a list \<Rightarrow> 'a list \<Rightarrow> bool" where
  "grows N old new \<longleftrightarrow> set new \<subseteq> set old \<union> N"

definition written_within :: "string set \<Rightarrow> db \<Rightarrow> db \<Rightarrow> bool" where
  "written_within T d d' \<longleftrightarrow>
     grows {r. pr_ticker r \<in> T} (prices d) (prices d') \<and>
     grows {r. st_ticker r \<in> T} (stocks d) (stocks d') \<and>
     grows {r. ph_ticker r \<in> T} (price_history d) (price_history d') \<and>
     grows {r. row_ticker r \<in> T} (tbl_rows (balance_sheet d)) (tbl_rows (balance_sheet d')) \<and>
     grows {r. row_ticker r \<in> T} (tbl_rows (income_statement d)) (tbl_rows (income_statement d')) \<and>
     grows {r. row_ticker r \<in> T \<and> capex_ok (row_metrics r)}
       (tbl_rows (cashflow_statement d)) (tbl_rows (cashflow_statement d')) \<and>
     update_requests d' = update_requests d \<and> requests_seq d' = requests_seq d"

text \<open>The connection a successful pass through the body leaves behind.\<close>

definition body_writes :: "clock \<Rightarrow> yf_ticker \<Rightarrow> string \<Rightarrow> pyfloat \<Rightarrow> stock_row \<Rightarrow> db \<Rightarrow> db" where
  "body_writes clk t tk price row d =
     snd (try_fundamentals t tk
       (insert_or_ignore_history
          \<lparr>ph_ticker = tk, ph_date = sql_today clk, ph_close = to_sql price,
           ph_last_updated = sql_now clk\<rparr>
       (insert_or_replace_price
          \<lparr>pr_ticker = tk, pr_date = py_now clk, pr_close = to_sql price,
           pr_last_updated = sql_now clk\<rparr>
       (insert_or_replace_stock row d))))"

fun outcome_ticker :: "event \<Rightarrow> string option" where
  "outcome_ticker (SKIP t) = Some t"
| "outcome_ticker (ERROR t e) = Some t"
| "outcome_ticker (UPDATE t p c) = Some t"
| "outcome_ticker _ = None"

definition full_ticker :: yf_ticker where
  "full_ticker = \<lparr>yf_fast_last_price = Inr (Some (Num 10)), yf_history_close = Inr [],
     yf_info = Inr None,
     yf_balance_sheet = Inr (Some (one_period ''Total Assets'' (Num 100))),
     yf_financials = Inr (Some (one_period '' EBIT'' (Num 5))),
     yf_cashflow = Inr (Some (one_period ''Capital Expenditure'' (Num (-7))))\<rparr>"

definition demo_yf :: "string \<Rightarrow> py_error + yf_ticker" where
  "demo_yf s = (if s = ''AAA'' then Inr full_ticker
                else if s = ''ZERO'' then Inr (priced 0)
                else if s = ''NOPRICE'' then Inr ((priced 0)\<lparr>yf_fast_last_price := Inr None\<rparr>)
                else if s = ''NANCAPEX'' then
                  Inr ((priced 3)\<lparr>yf_cashflow := Inr (Some (one_period ''Capital Expenditure'' NaN))\<rparr>)
                else Inl (ProviderError ''no data''))"

definition aaa_stock :: stock_row where
  "aaa_stock = \<lparr>st_ticker = ''AAA'', st_name = SText ''AAA'', st_currency = SText ''USD'',
     st_sector = SNull, st_shares_outstanding = SReal 0, st_price = Some 10,
     st_market_cap = SReal 0, st_beta = SNull, st_growth_rate = 3 / 100,
     st_discount_rate = Some (2 / 25), st_tax_rate = 21 / 100,
     st_last_updated = ''2024-05-01 08:00:00''\<rparr>"

definition aaa_db :: db where
  "aaa_db = \<lparr>prices = [\<lparr>pr_ticker = ''AAA'', pr_date = ''2024-05-01 10:00:00'',
        pr_close = Some 10, pr_last_updated = ''2024-05-01 08:00:00''\<rparr>],
     price_history = [\<lparr>ph_ticker = ''AAA'', ph_date = ''2024-05-01'', ph_close = Some 10,
        ph_last_updated = ''2024-05-01 08:00:00''\<rparr>],
     update_requests = [], requests_seq = 0,
     stocks = [aaa_stock],
     balance_sheet = \<lparr>tbl_rows = [\<lparr>row_id = 1, row_ticker = ''AAA'', row_date = ''2023-12-31'',
        row_metrics = \<lparr>total_assets = Some 100, total_liabilities = Some 0,
          total_debt = Some 0, total_cash = Some 0\<rparr>\<rparr>], tbl_seq = 1\<rparr>,
     income_statement = \<lparr>tbl_rows = [\<lparr>row_id = 1, row_ticker = ''AAA'', row_date = ''2023-12-31'',
        row_metrics = \<lparr>ebit = Some 5, ebitda = Some 0, net_income = Some 0,
          total_revenue = Some 0\<rparr>\<rparr>], tbl_seq = 1\<rparr>,
     cashflow_statement = \<lparr>tbl_rows = [\<lparr>row_id = 1, row_ticker = ''AAA'', row_date = ''2023-12-31'',
        row_metrics = \<lparr>operating_cash_flow = Some 0, capital_expenditures = Some 7\<rparr>\<rparr>],
        tbl_seq = 1\<rparr>\<rparr>"

definition history_key :: "history_row \<Rightarrow> string \<times> string" where
  "history_key r = (ph_ticker r, ph_date r)"

definition history_kept :: "db \<Rightarrow> db \<Rightarrow> bool" where
  "history_kept d d' \<longleftrightarrow>
     (\<exists>added. price_history d' = price_history d @ added) \<and>
     (distinct (map history_key (price_history d)) \<longrightarrow> distinct (map history_key (price_history d')))"

definition later_yf :: "string \<Rightarrow> py_error + yf_ticker" where
  "later_yf s = (if s = ''AAA'' then Inr (priced 20) else Inl (ProviderError ''no data''))"

definition broken_balance :: yf_ticker where
  "broken_balance = full_ticker\<lparr>yf_balance_sheet := Inl (ProviderError ''malformed'')\<rparr>"

definition broken_income :: yf_ticker where
  "broken_income = full_ticker\<lparr>yf_financials := Inl (ProviderError ''malformed'')\<rparr>"

definition flaky_yf :: "string \<Rightarrow> py_error + yf_ticker" where
  "flaky_yf s = (if s = ''X'' then Inr broken_balance else Inl (ProviderError ''no data''))"

definition boot_env :: iter_env where
  "boot_env = \<lparr>env_yf = demo_yf, env_clock = clock0, env_time = 100, env_time_after = 100\<rparr>"

definition quiet_env :: iter_env where
  "quiet_env = \<lparr>env_yf = demo_yf, env_clock = clock0, env_time = 310, env_time_after = 310\<rparr>"

definition due_env :: iter_env where
  "due_env = \<lparr>env_yf = demo_yf, env_clock = clock0, env_time = 400, env_time_after = 401\<rparr>"

definition start_state :: daemon_state where
  "start_state = \<lparr>last_refresh_time = 100, sleep_time = 5\<rparr>"

definition queued_db :: db where
  "queued_db = empty_db\<lparr>update_requests :=
     [\<lparr>req_id = 1, req_ticker = ''bad'', req_requested_at = ''2024-05-01 07:59:00'', req_processed = 0\<rparr>,
      \<lparr>req_id = 2, req_ticker = ''old'', req_requested_at = ''2024-04-30 07:59:00'', req_processed = 1\<rparr>],
     requests_seq := 2\<rparr>"

text \<open>The (ticker, price) pairs of the update lines of a log, in order.\<close>

fun update_of :: "event \<Rightarrow> (string \<times> pyfloat) option" where
  "update_of (UPDATE t p c) = Some (t, p)"
| "update_of _ = None"

definition updates :: "event list \<Rightarrow> (string \<times> pyfloat) list" where
  "updates ev = List.map_filter update_of ev"

text \<open>
  What stays of a database when the tickers \<open>T\<close> are written afterwards: the rows of
  \<^verbatim>\<open>prices\<close> and \<^verbatim>\<open>stocks\<close> of every other ticker, a row for every ticker that had
  one, and all rows of \<^verbatim>\<open>price_history\<close> and of the statement tables, in place.
\<close>

definition rows_kept :: "string set \<Rightarrow> db \<Rightarrow> db \<Rightarrow> bool" where
  "rows_kept T d d' \<longleftrightarrow>
     (\<forall>r \<in> set (prices d). pr_ticker r \<notin> T \<longrightarrow> r \<in> set (prices d')) \<and>
     (\<forall>r \<in> set (stocks d). st_ticker r \<notin> T \<longrightarrow> r \<in> set (stocks d')) \<and>
     pr_ticker ` set (prices d) \<subseteq> pr_ticker ` set (prices d') \<and>
     st_ticker ` set (stocks d) \<subseteq> st_ticker ` set (stocks d') \<and>
     (\<exists>xs. price_history d' = price_history d @ xs) \<and>
     (\<exists>xs. tbl_rows (balance_sheet d') = tbl_rows (balance_sheet d) @ xs) \<and>
     (\<exists>xs. tbl_rows (income_statement d') = tbl_rows (income_statement d) @ xs) \<and>
     (\<exists>xs. tbl_rows (cashflow_statement d') = tbl_rows (cashflow_statement d) @ xs)"

text \<open>The rows an update of ticker \<open>tk\<close> at price \<open>p\<close> leaves in the database.\<close>

definition stored :: "clock \<Rightarrow> string \<Rightarrow> pyfloat \<Rightarrow> db \<Rightarrow> bool" where
  "stored clk tk p d \<longleftrightarrow>
     \<lparr>pr_ticker = tk, pr_date = py_now clk, pr_close = to_sql p,
      pr_last_updated = sql_now clk\<rparr> \<in> set (prices d) \<and>
     (\<exists>r \<in> set (stocks d). st_ticker r = tk \<and> st_price r = to_sql p) \<and>
     (tk, sql_today clk) \<in> history_key ` set (price_history d)"

definition clock1 :: clock where
  "clock1 = \<lparr>py_now = ''2024-05-02 10:00:00'', sql_now = ''2024-05-02 08:00:00'',
     sql_today = ''2024-05-02''\<rparr>"

section \<open>Strings\<close>

lemma dropWhile_space_append:
  "\<forall>c \<in> set a. py_isspace c \<Longrightarrow> dropWhile py_isspace (a @ s) = dropWhile py_isspace s"
  by (induction a) simp_all

lemma dropWhile_all_space: "\<forall>c \<in> set a. py_isspace c \<Longrightarrow> dropWhile py_isspace a = []"
  by (induction a) simp_all

lemma strip_padded:
  assumes a: "\<forall>c \<in> set a. py_isspace c" and b: "\<forall>c \<in> set b. py_isspace c"
  shows "strip (a @ k @ b) = strip k"
proof (cases "\<forall>c \<in> set k. py_isspace c")
  case True
  then have "\<forall>c \<in> set (a @ k @ b). py_isspace c" using a b by auto
  then have "dropWhile py_isspace (a @ k @ b) = []" by (rule dropWhile_all_space)
  moreover have "dropWhile py_isspace k = []" using True by (rule dropWhile_all_space)
  ultimately show ?thesis by (simp only: strip_def)
next
  case False
  then obtain x where x: "x \<in> set k" "\<not> py_isspace x" by blast
  have "dropWhile py_isspace (a @ k @ b) = dropWhile py_isspace (k @ b)"
    using a by (rule dropWhile_space_append)
  also have "\<dots> = dropWhile py_isspace k @ b"
    using x by (rule dropWhile_append1)
  finally have "rev (dropWhile py_isspace (a @ k @ b)) = rev b @ rev (dropWhile py_isspace k)"
    by simp
  moreover have "\<forall>c \<in> set (rev b). py_isspace c" using b by simp
  ultimately have "dropWhile py_isspace (rev (dropWhile py_isspace (a @ k @ b)))
      = dropWhile py_isspace (rev (dropWhile py_isspace k))"
    by (simp add: dropWhile_space_append)
  then show ?thesis by (simp add: strip_def)
qed

lemma upper_char_not_lower: "\<not> is_lower (upper_char c)"
  by (auto simp: upper_char_def is_lower_def Let_def)

lemma upper_no_lower: "\<forall>c \<in> set (upper s). \<not> is_lower c"
  by (simp add: upper_def upper_char_not_lower)

section \<open>Field resolution\<close>

lemma resolve_Cons: "resolve row (c # cs) d = series_get row c (resolve row cs d)"
  by (simp add: resolve_def)

lemma resolve_absent: "\<forall>c \<in> set chain. values_at row c = [] \<Longrightarrow> resolve row chain d = d"
  by (induction chain) (simp_all add: resolve_def series_get_def)

lemma resolve_append_absent:
  "\<forall>c \<in> set pre. values_at row c = [] \<Longrightarrow> resolve row (pre @ rest) d = resolve row rest d"
  by (induction pre) (simp_all add: resolve_Cons series_get_def)

lemma resolve_first_present:
  assumes "\<forall>c \<in> set pre. values_at row c = []" and "values_at row ck = [v]"
  shows "resolve row (pre @ ck # post) d = Scalar v"
  using assms by (simp add: resolve_append_absent resolve_Cons series_get_def)

text \<open>
  C7, as the code has it. The lookup goes by presence of the label, not by the value:
  with the labels of the row stripped of surrounding whitespace, a chain none of whose
  candidates is a label resolves to the default (and \<^verbatim>\<open>float\<close> of it does not raise);
  a chain whose first present candidate \<open>ck\<close> occurs once resolves to the row's value at
  \<open>ck\<close>, whatever that value is (NaN included) and whatever stands at later candidates;
  and a label padded with whitespace is the same label as the unpadded one.
\<close>

theorem field_resolution_by_presence:
  "((\<forall>c \<in> set chain. values_at (strip_index row) c = [])
      \<longrightarrow> resolve (strip_index row) chain d = d
        \<and> py_float (resolve (strip_index row) chain zero) = Inr (Num 0))
   \<and> ((\<forall>c \<in> set pre. values_at (strip_index row) c = []) \<and> values_at (strip_index row) ck = [v]
      \<longrightarrow> resolve (strip_index row) (pre @ ck # post) d = Scalar v)
   \<and> ((\<forall>c \<in> set a. py_isspace c) \<and> (\<forall>c \<in> set b. py_isspace c)
      \<longrightarrow> strip_index ((a @ k @ b, w) # row) = strip_index ((k, w) # row))"
  by (simp add: resolve_absent resolve_first_present strip_padded strip_index_def)

theorem field_resolution_by_presence_witness:
  "resolve (strip_index [('' EBIT'', Num 7)]) [''Total Debt'', ''Long Term Debt''] (Scalar (Num 3))
      = Scalar (Num 3)
   \<and> py_float (resolve (strip_index [('' EBIT'', Num 7)]) [''Total Debt'', ''Long Term Debt''] zero)
      = Inr (Num 0)
   \<and> resolve (strip_index [(''Long Term Debt '', NaN), (''Other'', Num 1)])
        ([''Total Debt''] @ ''Long Term Debt'' # [''Other'']) zero = Scalar NaN
   \<and> strip_index (('' '' @ ''EBIT'' @ ''  '', Num 1) # [(''Other'', Num 1)])
      = strip_index ((''EBIT'', Num 1) # [(''Other'', Num 1)])"
proof -
  have h1: "\<forall>c \<in> set [''Total Debt'', ''Long Term Debt''].
              values_at (strip_index [('' EBIT'', Num 7)]) c = []"
    by (simp add: values_at_def strip_index_def strip_def py_isspace_def)
  have h2: "(\<forall>c \<in> set [''Total Debt''].
               values_at (strip_index [(''Long Term Debt '', NaN), (''Other'', Num 1)]) c = [])
            \<and> values_at (strip_index [(''Long Term Debt '', NaN), (''Other'', Num 1)])
                 ''Long Term Debt'' = [NaN]"
    by (simp add: values_at_def strip_index_def strip_def py_isspace_def)
  have h3: "(\<forall>c \<in> set '' ''. py_isspace c) \<and> (\<forall>c \<in> set ''  ''. py_isspace c)"
    by (simp add: py_isspace_def)
  note r1 = field_resolution_by_presence [where chain = "[''Total Debt'', ''Long Term Debt'']"
        and row = "[('' EBIT'', Num 7)]" and d = "Scalar (Num 3)", THEN conjunct1, THEN mp, OF h1]
  note r2 = field_resolution_by_presence [where row = "[(''Long Term Debt '', NaN), (''Other'', Num 1)]"
        and d = zero and pre = "[''Total Debt'']" and ck = "''Long Term Debt''" and v = NaN
        and post = "[''Other'']", THEN conjunct2, THEN conjunct1, THEN mp, OF h2]
  note r3 = field_resolution_by_presence [where row = "[(''Other'', Num 1)]" and a = "'' ''"
        and b = "''  ''" and k = "''EBIT''" and w = "Num 1",
        THEN conjunct2, THEN conjunct2, THEN mp, OF h3]
  from r1 r2 r3 show ?thesis by (intro conjI) (erule conjunct1, erule conjunct2, assumption+)
qed

text \<open>
  C7 as stated fails: a first candidate that is present with a null value is returned
  as it is; the lookup does not go on to the next candidate, which holds 5 here.
\<close>

theorem field_resolution_null_counterexample:
  "resolve (strip_index [(''Total Debt'', NaN), (''Long Term Debt'', Num 5)])
     [''Total Debt'', ''Long Term Debt''] zero = Scalar NaN
   \<and> resolve (strip_index [(''Total Debt'', NaN), (''Long Term Debt'', Num 5)])
     [''Total Debt'', ''Long Term Debt''] zero \<noteq> Scalar (Num 5)
   \<and> map (total_debt) [m. Inr m \<leftarrow> [balance_values
        (strip_index [(''Total Debt'', NaN), (''Long Term Debt'', Num 5)])]] = [None]"
  by (simp add: resolve_def series_get_def values_at_def strip_index_def strip_def
        py_isspace_def balance_values_def bind_err_def)

lemma grows_refl: "grows N xs xs"
  by (simp add: grows_def)

lemma grows_trans: "grows N xs ys \<Longrightarrow> grows N ys zs \<Longrightarrow> grows N xs zs"
  unfolding grows_def by blast

lemma grows_mono: "grows N xs ys \<Longrightarrow> N \<subseteq> N' \<Longrightarrow> grows N' xs ys"
  unfolding grows_def by blast

lemma written_within_refl: "written_within T d d"
  by (simp add: written_within_def grows_refl)

lemma written_within_trans:
  "written_within T d d1 \<Longrightarrow> written_within T d1 d2 \<Longrightarrow> written_within T d d2"
  unfolding written_within_def
  apply (elim conjE)
  apply (intro conjI)
         apply (erule (1) grows_trans)+
   apply simp_all
  done

lemma written_within_mono:
  assumes "written_within T d d'" and "T \<subseteq> T'"
  shows "written_within T' d d'"
proof -
  have m: "\<And>f. {r. f r \<in> T} \<subseteq> {r. f r \<in> T'}" using assms(2) by auto
  have mc: "{r. row_ticker r \<in> T \<and> capex_ok (row_metrics r)}
      \<subseteq> {r::cashflow_metrics stmt_row. row_ticker r \<in> T' \<and> capex_ok (row_metrics r)}"
    using assms(2) by auto
  show ?thesis
    using assms(1) unfolding written_within_def
    apply (elim conjE)
    apply (intro conjI)
           apply (erule grows_mono, rule m)+
     apply (erule grows_mono, rule mc)
    apply simp_all
    done
qed

lemma set_insert_or_replace_stmt:
  "set (tbl_rows (insert_or_replace_stmt t tk d m))
     \<subseteq> set (tbl_rows t) \<union> {r. row_ticker r = tk \<and> row_metrics r = m}"
  by (auto simp: insert_or_replace_stmt_def Let_def)

lemma store_rows_new:
  assumes "\<And>row m. extract row = Inr m \<Longrightarrow> P m"
  shows "set (tbl_rows (snd (store_rows extract tk rs t)))
           \<subseteq> set (tbl_rows t) \<union> {r. row_ticker r = tk \<and> P (row_metrics r)}"
proof (induction rs arbitrary: t)
  case Nil
  show ?case by simp
next
  case (Cons dr rs)
  obtain date row where dr: "dr = (date, row)" by (cases dr)
  show ?case
  proof (cases "extract (strip_index row)")
    case (Inl e)
    then show ?thesis by (simp add: dr)
  next
    case (Inr m)
    have "set (tbl_rows (insert_or_replace_stmt t tk date m))
            \<subseteq> set (tbl_rows t) \<union> {r. row_ticker r = tk \<and> P (row_metrics r)}"
      using set_insert_or_replace_stmt [of t tk date m] assms [OF Inr] by auto
    with Cons.IH [of "insert_or_replace_stmt t tk date m"] show ?thesis
      by (auto simp: dr Inr)
  qed
qed

lemma store_statement_new:
  assumes "\<And>row m. extract row = Inr m \<Longrightarrow> P m"
  shows "set (tbl_rows (snd (store_statement extract tk src t)))
           \<subseteq> set (tbl_rows t) \<union> {r. row_ticker r = tk \<and> P (row_metrics r)}"
  using store_rows_new [of "extract" P tk _ t, OF assms]
  by (auto simp: store_statement_def split: sum.splits option.splits)

lemma cashflow_values_capex: "cashflow_values row = Inr m \<Longrightarrow> capex_ok m"
proof -
  assume a: "cashflow_values row = Inr m"
  then obtain c where "capital_expenditures m = to_sql (py_abs c)"
    by (auto simp: cashflow_values_def bind_err_def split: sum.splits)
  then show ?thesis by (cases c) (simp_all add: capex_ok_def)
qed

lemma try_fundamentals_alt:
  "try_fundamentals t tk d =
     (let B = store_statement balance_values tk (yf_balance_sheet t) (balance_sheet d);
          I = store_statement income_values tk (yf_financials t) (income_statement d);
          C = store_statement cashflow_values tk (yf_cashflow t) (cashflow_statement d)
      in if fst B \<noteq> None then (fst B, d\<lparr>balance_sheet := snd B\<rparr>)
         else if fst I \<noteq> None then (fst I, d\<lparr>balance_sheet := snd B, income_statement := snd I\<rparr>)
         else (fst C, d\<lparr>balance_sheet := snd B, income_statement := snd I,
                          cashflow_statement := snd C\<rparr>))"
proof -
  obtain eb b where B: "store_statement balance_values tk (yf_balance_sheet t) (balance_sheet d) = (eb, b)"
    by (cases "store_statement balance_values tk (yf_balance_sheet t) (balance_sheet d)")
  obtain ei i where I: "store_statement income_values tk (yf_financials t) (income_statement d) = (ei, i)"
    by (cases "store_statement income_values tk (yf_financials t) (income_statement d)")
  obtain ec c where C: "store_statement cashflow_values tk (yf_cashflow t) (cashflow_statement d) = (ec, c)"
    by (cases "store_statement cashflow_values tk (yf_cashflow t) (cashflow_statement d)")
  show ?thesis
    by (cases eb; cases ei; cases ec) (simp_all add: try_fundamentals_def B I C)
qed

text \<open>What the three statement tables are after the try block.\<close>

lemma try_fundamentals_balance:
  "balance_sheet (snd (try_fundamentals t tk d))
     = snd (store_statement balance_values tk (yf_balance_sheet t) (balance_sheet d))"
  by (simp add: try_fundamentals_alt Let_def)

lemma try_fundamentals_income:
  "income_statement (snd (try_fundamentals t tk d))
     = (if fst (store_statement balance_values tk (yf_balance_sheet t) (balance_sheet d)) = None
        then snd (store_statement income_values tk (yf_financials t) (income_statement d))
        else income_statement d)"
  by (simp add: try_fundamentals_alt Let_def)

lemma try_fundamentals_cashflow:
  "cashflow_statement (snd (try_fundamentals t tk d))
     = (if fst (store_statement balance_values tk (yf_balance_sheet t) (balance_sheet d)) = None
          \<and> fst (store_statement income_values tk (yf_financials t) (income_statement d)) = None
        then snd (store_statement cashflow_values tk (yf_cashflow t) (cashflow_statement d))
        else cashflow_statement d)"
  by (simp add: try_fundamentals_alt Let_def)

lemma try_fundamentals_frame:
  "prices (snd (try_fundamentals t tk d)) = prices d"
  "stocks (snd (try_fundamentals t tk d)) = stocks d"
  "price_history (snd (try_fundamentals t tk d)) = price_history d"
  "update_requests (snd (try_fundamentals t tk d)) = update_requests d"
  "requests_seq (snd (try_fundamentals t tk d)) = requests_seq d"
  by (simp_all add: try_fundamentals_alt Let_def)

lemma try_fundamentals_written: "written_within {tk} d (snd (try_fundamentals t tk d))"
proof -
  have b: "set (tbl_rows (snd (store_statement balance_values tk (yf_balance_sheet t) (balance_sheet d))))
      \<subseteq> set (tbl_rows (balance_sheet d)) \<union> {r. row_ticker r = tk \<and> True}"
    by (rule store_statement_new) simp
  have i: "set (tbl_rows (snd (store_statement income_values tk (yf_financials t) (income_statement d))))
      \<subseteq> set (tbl_rows (income_statement d)) \<union> {r. row_ticker r = tk \<and> True}"
    by (rule store_statement_new) simp
  have c: "set (tbl_rows (snd (store_statement cashflow_values tk (yf_cashflow t) (cashflow_statement d))))
      \<subseteq> set (tbl_rows (cashflow_statement d)) \<union> {r. row_ticker r = tk \<and> capex_ok (row_metrics r)}"
    by (rule store_statement_new) (rule cashflow_values_capex)
  show ?thesis
    unfolding written_within_def grows_def try_fundamentals_balance try_fundamentals_income
      try_fundamentals_cashflow try_fundamentals_frame
    using b i c by (simp add: subset_iff)
qed

lemma working_fundamentals:
  "working (fst (fetch_and_store_fundamentals t tk c)) = snd (try_fundamentals t tk (working c))"
proof -
  obtain e d where td: "try_fundamentals t tk (working c) = (e, d)"
    by (cases "try_fundamentals t tk (working c)")
  show ?thesis
    by (cases e) (simp_all add: fetch_and_store_fundamentals_def td commit_def)
qed

lemma written_stock:
  "st_ticker r = tk \<Longrightarrow> written_within {tk} d (insert_or_replace_stock r d)"
  by (auto simp: written_within_def grows_def insert_or_replace_stock_def)

lemma written_price:
  "pr_ticker r = tk \<Longrightarrow> written_within {tk} d (insert_or_replace_price r d)"
  by (auto simp: written_within_def grows_def insert_or_replace_price_def)

lemma written_history:
  "ph_ticker r = tk \<Longrightarrow> written_within {tk} d (insert_or_ignore_history r d)"
  by (auto simp: written_within_def grows_def insert_or_ignore_history_def)

lemma snapshot_ticker: "snapshot clk tk p info = Inr (row, cur) \<Longrightarrow> st_ticker row = tk"
  by (auto simp: snapshot_def bind_err_def Let_def split: sum.splits)

lemma store_rows_error_indep:
  "fst (store_rows extract tk rs t) = fst (store_rows extract tk rs t')"
proof (induction rs arbitrary: t t')
  case Nil
  show ?case by simp
next
  case (Cons dr rs)
  obtain date row where dr: "dr = (date, row)" by (cases dr)
  show ?case
    using Cons.IH by (cases "extract (strip_index row)") (simp_all add: dr)
qed

lemma store_statement_error_indep:
  "fst (store_statement extract tk src t) = fst (store_statement extract tk src t')"
  using store_rows_error_indep [of "extract" tk _ t t']
  by (simp add: store_statement_def split: sum.splits option.splits)

lemma try_fundamentals_error:
  "fst (try_fundamentals t tk d) =
     (case fst (store_statement balance_values tk (yf_balance_sheet t) (balance_sheet d)) of
        Some e \<Rightarrow> Some e
      | None \<Rightarrow>
     (case fst (store_statement income_values tk (yf_financials t) (income_statement d)) of
        Some e \<Rightarrow> Some e
      | None \<Rightarrow> fst (store_statement cashflow_values tk (yf_cashflow t) (cashflow_statement d))))"
  by (auto simp: try_fundamentals_alt Let_def split: option.splits)

lemma try_fundamentals_error_indep:
  "fst (try_fundamentals t tk d) = fst (try_fundamentals t tk d')"
  unfolding try_fundamentals_error
  using store_statement_error_indep [of balance_values tk "yf_balance_sheet t" "balance_sheet d" "balance_sheet d'"]
    store_statement_error_indep [of income_values tk "yf_financials t" "income_statement d" "income_statement d'"]
    store_statement_error_indep [of cashflow_values tk "yf_cashflow t" "cashflow_statement d" "cashflow_statement d'"]
  by (simp only:)

lemma events_fundamentals:
  "snd (fetch_and_store_fundamentals t tk c) =
     (case fst (try_fundamentals t tk empty_db) of None \<Rightarrow> [] | Some e \<Rightarrow> [FUNDAMENTALS_ERROR tk e])"
proof -
  obtain e d where td: "try_fundamentals t tk (working c) = (e, d)"
    by (cases "try_fundamentals t tk (working c)")
  then have "fst (try_fundamentals t tk empty_db) = e"
    using try_fundamentals_error_indep [of t tk "working c" empty_db] by simp
  then show ?thesis
    by (cases e) (simp_all add: fetch_and_store_fundamentals_def td)
qed

lemma ticker_body_cases [case_names error skip update]:
  obtains (error) e where "\<And>c. ticker_body yf clk tk c = (Some e, c, [])"
  | (skip) "\<And>c. ticker_body yf clk tk c = (None, c, [SKIP tk])"
  | (update) t price row cur where "yf tk = Inr t" and "resolve_price t = Inr (Some price)"
      and "snapshot clk tk price (case yf_info t of Inr (Some m) \<Rightarrow> m | _ \<Rightarrow> Map.empty) = Inr (row, cur)"
      and "\<And>c. \<exists>c'. ticker_body yf clk tk c =
              (None, c', SYNC tk # (case fst (try_fundamentals t tk empty_db) of
                   None \<Rightarrow> [] | Some e \<Rightarrow> [FUNDAMENTALS_ERROR tk e]) @ [UPDATE tk price cur])
            \<and> working c' = body_writes clk t tk price row (working c)"
proof (cases "yf tk")
  case (Inl e)
  then show ?thesis by (intro error [of e]) (simp add: ticker_body_def)
next
  case t: (Inr t)
  show ?thesis
  proof (cases "resolve_price t")
    case (Inl e)
    with t show ?thesis by (intro error [of e]) (simp add: ticker_body_def)
  next
    case p: (Inr po)
    show ?thesis
    proof (cases po)
      case None
      with t p show ?thesis by (intro skip) (simp add: ticker_body_def)
    next
      case (Some price)
      show ?thesis
      proof (cases "yf_info t")
        case (Inl e)
        with t p Some show ?thesis by (intro error [of e]) (simp add: ticker_body_def)
      next
        case io: (Inr io)
        let ?info = "case io of None \<Rightarrow> Map.empty | Some m \<Rightarrow> m"
        have info_eq: "(case yf_info t of Inr (Some m) \<Rightarrow> m | _ \<Rightarrow> Map.empty) = ?info"
          by (simp add: io split: option.splits)
        show ?thesis
        proof (cases "snapshot clk tk price ?info")
          case (Inl e)
          with t p Some io show ?thesis by (intro error [of e]) (simp add: ticker_body_def)
        next
          case (Inr rc)
          obtain row cur where rc: "rc = (row, cur)" by (cases rc)
          have body: "\<exists>c'. ticker_body yf clk tk c =
              (None, c', SYNC tk # (case fst (try_fundamentals t tk empty_db) of
                   None \<Rightarrow> [] | Some e \<Rightarrow> [FUNDAMENTALS_ERROR tk e]) @ [UPDATE tk price cur])
            \<and> working c' = body_writes clk t tk price row (working c)" for c
            using t p Some io Inr rc
            by (simp add: ticker_body_def Let_def split_beta events_fundamentals
                  working_fundamentals body_writes_def execute_def)
          have snap: "snapshot clk tk price (case yf_info t of Inr (Some m) \<Rightarrow> m | _ \<Rightarrow> Map.empty)
              = Inr (row, cur)"
            using Inr rc info_eq by simp
          show ?thesis
            using t p Some snap body by (intro update [of t price row cur]) simp_all
        qed
      qed
    qed
  qed
qed

lemma body_writes_written:
  assumes "st_ticker row = tk"
  shows "written_within {tk} d (body_writes clk t tk price row d)"
proof -
  let ?d1 = "insert_or_replace_stock row d"
  let ?d2 = "insert_or_replace_price
          \<lparr>pr_ticker = tk, pr_date = py_now clk, pr_close = to_sql price,
           pr_last_updated = sql_now clk\<rparr> ?d1"
  let ?d3 = "insert_or_ignore_history
          \<lparr>ph_ticker = tk, ph_date = sql_today clk, ph_close = to_sql price,
           ph_last_updated = sql_now clk\<rparr> ?d2"
  have 1: "written_within {tk} d ?d1" by (rule written_stock [OF assms])
  have 2: "written_within {tk} ?d1 ?d2" by (rule written_price) simp
  have 3: "written_within {tk} ?d2 ?d3" by (rule written_history) simp
  have 4: "written_within {tk} ?d3 (snd (try_fundamentals t tk ?d3))"
    by (rule try_fundamentals_written)
  show ?thesis
    unfolding body_writes_def
    by (rule written_within_trans [OF written_within_trans
          [OF written_within_trans [OF 1 2] 3] 4])
qed

lemma process_ticker_cases [case_names error skip update]:
  obtains (error) e where "\<And>c. process_ticker yf clk tk c = (c, [ERROR tk e])"
  | (skip) "\<And>c. process_ticker yf clk tk c = (c, [SKIP tk])"
  | (update) t price row cur where "yf tk = Inr t" and "resolve_price t = Inr (Some price)"
      and "st_ticker row = tk"
      and "\<And>c. \<exists>c'. process_ticker yf clk tk c =
              (c', SYNC tk # (case fst (try_fundamentals t tk empty_db) of
                   None \<Rightarrow> [] | Some e \<Rightarrow> [FUNDAMENTALS_ERROR tk e]) @ [UPDATE tk price cur])
            \<and> working c' = body_writes clk t tk price row (working c)"
proof (cases rule: ticker_body_cases [of yf clk tk])
  case (error e)
  then show ?thesis by (intro that(1) [of e]) (simp add: process_ticker_def)
next
  case skip
  then show ?thesis by (intro that(2)) (simp add: process_ticker_def)
next
  case (update t price row cur)
  have "\<exists>c'. process_ticker yf clk tk c =
              (c', SYNC tk # (case fst (try_fundamentals t tk empty_db) of
                   None \<Rightarrow> [] | Some e \<Rightarrow> [FUNDAMENTALS_ERROR tk e]) @ [UPDATE tk price cur])
            \<and> working c' = body_writes clk t tk price row (working c)" for c
    using update(4) [of c] by (auto simp: process_ticker_def)
  with update(1,2) snapshot_ticker [OF update(3)] show ?thesis
    by (intro that(3) [of t price row cur]) simp_all
qed

lemma process_ticker_written:
  "written_within {tk} (working c) (working (fst (process_ticker yf clk tk c)))"
proof (cases rule: process_ticker_cases [of yf clk tk])
  case (error e)
  then show ?thesis by (simp add: written_within_refl)
next
  case skip
  then show ?thesis by (simp add: written_within_refl)
next
  case (update t price row cur)
  from update(4) [of c] obtain c' where
    "fst (process_ticker yf clk tk c) = c'"
    "working c' = body_writes clk t tk price row (working c)" by auto
  then show ?thesis by (simp add: body_writes_written [OF update(3)])
qed

lemma map_filter_app: "List.map_filter f (xs @ ys) = List.map_filter f xs @ List.map_filter f ys"
  by (simp add: List.map_filter_def)

lemma process_ticker_outcome:
  "List.map_filter outcome_ticker (snd (process_ticker yf clk tk c)) = [tk]"
proof (cases rule: process_ticker_cases [of yf clk tk])
  case (error e)
  then show ?thesis by (simp add: List.map_filter_def)
next
  case skip
  then show ?thesis by (simp add: List.map_filter_def)
next
  case (update t price row cur)
  from update(4) [of c] obtain c' where
    "process_ticker yf clk tk c =
              (c', SYNC tk # (case fst (try_fundamentals t tk empty_db) of
                   None \<Rightarrow> [] | Some e \<Rightarrow> [FUNDAMENTALS_ERROR tk e]) @ [UPDATE tk price cur])"
    by blast
  then show ?thesis by (simp add: List.map_filter_def split: option.splits)
qed

lemma batch_loop_Cons:
  "batch_loop yf clk (tk # rest) c =
     (fst (batch_loop yf clk rest (fst (process_ticker yf clk tk c))),
      snd (process_ticker yf clk tk c) @ snd (batch_loop yf clk rest (fst (process_ticker yf clk tk c))))"
  by (simp add: split_beta)

lemma batch_loop_append:
  "batch_loop yf clk (ts1 @ ts2) c =
     (fst (batch_loop yf clk ts2 (fst (batch_loop yf clk ts1 c))),
      snd (batch_loop yf clk ts1 c) @ snd (batch_loop yf clk ts2 (fst (batch_loop yf clk ts1 c))))"
  by (induction ts1 arbitrary: c) (simp_all add: split_beta)

lemma batch_loop_written:
  "written_within (set ts) (working c) (working (fst (batch_loop yf clk ts c)))"
proof (induction ts arbitrary: c)
  case Nil
  show ?case by (simp add: written_within_refl)
next
  case (Cons tk ts)
  have 1: "written_within (set (tk # ts)) (working c) (working (fst (process_ticker yf clk tk c)))"
    by (rule written_within_mono [OF process_ticker_written]) simp
  have 2: "written_within (set (tk # ts)) (working (fst (process_ticker yf clk tk c)))
      (working (fst (batch_loop yf clk ts (fst (process_ticker yf clk tk c)))))"
    by (rule written_within_mono [OF Cons.IH]) auto
  show ?case
    unfolding batch_loop_Cons fst_conv by (rule written_within_trans [OF 1 2])
qed

lemma batch_loop_outcome:
  "List.map_filter outcome_ticker (snd (batch_loop yf clk ts c)) = ts"
proof (induction ts arbitrary: c)
  case Nil
  show ?case by (simp add: List.map_filter_def)
next
  case (Cons tk ts)
  show ?case
    unfolding batch_loop_Cons snd_conv map_filter_app
    by (simp only: process_ticker_outcome Cons.IH append.simps)
qed

lemma fetch_and_store_batch_alt:
  "fetch_and_store_batch yf clk tickers d =
     (if tickers = [] then (d, [])
      else (working (fst (batch_loop yf clk (map upper tickers) (connect d))),
            snd (batch_loop yf clk (map upper tickers) (connect d))))"
  by (simp add: fetch_and_store_batch_def split_beta close_def commit_def)

lemma batch_written:
  "written_within (set (map upper tickers)) d (fst (fetch_and_store_batch yf clk tickers d))"
proof (cases "tickers = []")
  case True
  then show ?thesis by (simp add: fetch_and_store_batch_alt written_within_refl)
next
  case False
  have "written_within (set (map upper tickers)) (working (connect d))
          (working (fst (batch_loop yf clk (map upper tickers) (connect d))))"
    by (rule batch_loop_written)
  with False show ?thesis by (simp add: fetch_and_store_batch_alt connect_def)
qed

lemma batch_outcome:
  "List.map_filter outcome_ticker (snd (fetch_and_store_batch yf clk tickers d)) = map upper tickers"
proof (cases "tickers = []")
  case True
  then show ?thesis by (simp add: fetch_and_store_batch_alt List.map_filter_def)
next
  case False
  then show ?thesis by (simp only: fetch_and_store_batch_alt if_False snd_conv batch_loop_outcome)
qed

lemmas eval_defs =
  fetch_and_store_batch_def process_ticker_def ticker_body_def resolve_price_def snapshot_def
  fetch_and_store_fundamentals_def try_fundamentals_def store_statement_def
  frame_empty_def iterrows_def balance_values_def income_values_def cashflow_values_def
  series_get_def values_at_def strip_index_def strip_def py_isspace_def bind_err_def
  insert_or_replace_stmt_def next_rowid_def insert_or_replace_stock_def
  insert_or_replace_price_def insert_or_ignore_history_def
  connect_def execute_def commit_def close_def dict_get_def
  empty_db_def empty_table_def clock0_def priced_def one_period_def Let_def
  demo_yf_def full_ticker_def

lemma upper_demo:
  "upper ''aaa'' = ''AAA''" "upper ''zero'' = ''ZERO''" "upper ''bad'' = ''BAD''"
  "upper ''noprice'' = ''NOPRICE''" "upper ''nancapex'' = ''NANCAPEX''"
  by code_simp+

lemma demo_aaa:
  "fetch_and_store_batch demo_yf clock0 [''aaa''] empty_db
     = (aaa_db, [SYNC ''AAA'', UPDATE ''AAA'' (Num 10) (PStr ''USD'')])"
  by (simp add: eval_defs upper_demo aaa_db_def aaa_stock_def
        growth_rate_def rf_def rm_def tax_rate_def)

text \<open>
  C9. Every row of \<^verbatim>\<open>prices\<close>, \<^verbatim>\<open>stocks\<close>, \<^verbatim>\<open>price_history\<close> and the three statement
  tables that is in the database after the batch fetcher and was not there before is
  keyed by the upper-cased form of one of the input tickers, and that form has no
  lower-case letter.
\<close>

theorem batch_rows_keyed_uppercase:
  assumes "fetch_and_store_batch yf clk tickers d = (d', ev)"
  shows "(\<forall>r \<in> set (prices d'). r \<in> set (prices d) \<or> pr_ticker r \<in> set (map upper tickers))
    \<and> (\<forall>r \<in> set (stocks d'). r \<in> set (stocks d) \<or> st_ticker r \<in> set (map upper tickers))
    \<and> (\<forall>r \<in> set (price_history d').
          r \<in> set (price_history d) \<or> ph_ticker r \<in> set (map upper tickers))
    \<and> (\<forall>r \<in> set (tbl_rows (balance_sheet d')).
          r \<in> set (tbl_rows (balance_sheet d)) \<or> row_ticker r \<in> set (map upper tickers))
    \<and> (\<forall>r \<in> set (tbl_rows (income_statement d')).
          r \<in> set (tbl_rows (income_statement d)) \<or> row_ticker r \<in> set (map upper tickers))
    \<and> (\<forall>r \<in> set (tbl_rows (cashflow_statement d')).
          r \<in> set (tbl_rows (cashflow_statement d)) \<or> row_ticker r \<in> set (map upper tickers))
    \<and> (\<forall>t \<in> set (map upper tickers). \<forall>c \<in> set t. \<not> is_lower c)"
proof -
  have w: "written_within (set (map upper tickers)) d d'"
    using batch_written [of tickers d yf clk] assms by simp
  have u: "\<forall>t \<in> set (map upper tickers). \<forall>c \<in> set t. \<not> is_lower c"
    using upper_no_lower by auto
  from w show ?thesis
    unfolding written_within_def grows_def
    apply (elim conjE)
    apply (intro conjI)
          apply blast
         apply blast
        apply blast
       apply blast
      apply blast
     apply blast
    apply (rule u)
    done
qed

theorem batch_rows_keyed_uppercase_witness:
  "map pr_ticker (prices (fst (fetch_and_store_batch demo_yf clock0 [''aaa''] empty_db))) = [''AAA'']
   \<and> set (map row_ticker (tbl_rows (cashflow_statement
        (fst (fetch_and_store_batch demo_yf clock0 [''aaa''] empty_db))))) \<subseteq> {''AAA''}
   \<and> \<not> is_lower (CHR ''A'')"
proof -
  note t = batch_rows_keyed_uppercase [OF demo_aaa]
  have 1: "set (map row_ticker (tbl_rows (cashflow_statement aaa_db))) \<subseteq> {''AAA''}"
    using t by (auto simp: empty_db_def empty_table_def upper_demo)
  have 2: "\<not> is_lower (CHR ''A'')"
    using t by (simp add: upper_demo)
  show ?thesis using 1 2 by (simp add: demo_aaa) (simp add: aaa_db_def)
qed

section \<open>Failure isolation in the batch\<close>

lemma fetch_and_store_batch_loop:
  "fetch_and_store_batch yf clk tickers d =
     (working (fst (batch_loop yf clk (map upper tickers) (connect d))),
      snd (batch_loop yf clk (map upper tickers) (connect d)))"
  by (cases "tickers = []") (simp_all add: fetch_and_store_batch_alt connect_def)

lemma process_ticker_failure:
  assumes "fst (ticker_body yf clk tk c0) = Some e \<and> x = ERROR tk e
         \<or> snd (snd (ticker_body yf clk tk c0)) = [SKIP tk] \<and> x = SKIP tk"
  shows "process_ticker yf clk tk c = (c, [x])"
proof (cases rule: ticker_body_cases [of yf clk tk])
  case (error e')
  from error [of c0] assms have "x = ERROR tk e'" by auto
  with error [of c] show ?thesis by (simp add: process_ticker_def)
next
  case skip
  from skip [of c0] assms have "x = SKIP tk" by auto
  with skip [of c] show ?thesis by (simp add: process_ticker_def)
next
  case (update t price row cur)
  from update(4) [of c0] assms show ?thesis by auto
qed

section \<open>Capital expenditure\<close>

lemma cashflow_values_abs:
  assumes "cashflow_values row = Inr m"
  shows "\<exists>c. py_float (resolve row [''Capital Expenditure'', ''Net PPE Purchase And Sale''] zero) = Inr c
           \<and> capital_expenditures m = to_sql (py_abs c)"
  using assms by (auto simp: cashflow_values_def bind_err_def resolve_def split: sum.splits)

text \<open>
  C10, as the code has it. The stored \<^verbatim>\<open>capital_expenditures\<close> is the absolute value of
  the resolved field (\<^verbatim>\<open>Capital Expenditure\<close>, else \<^verbatim>\<open>Net PPE Purchase And Sale\<close>, else 0),
  and NaN is stored as NULL: every cashflow row the batch fetcher adds has a
  \<^verbatim>\<open>capital_expenditures\<close> that is NULL or not negative.
\<close>

theorem cashflow_capex_abs:
  "(cashflow_values row = Inr m \<longrightarrow>
      (\<exists>c. py_float (resolve row [''Capital Expenditure'', ''Net PPE Purchase And Sale''] zero) = Inr c
         \<and> capital_expenditures m = to_sql (py_abs c)))
   \<and> (fetch_and_store_batch yf clk tickers d = (d', ev) \<longrightarrow>
       (\<forall>r \<in> set (tbl_rows (cashflow_statement d')).
          r \<in> set (tbl_rows (cashflow_statement d))
          \<or> capital_expenditures (row_metrics r) = None
          \<or> (\<exists>v. capital_expenditures (row_metrics r) = Some v \<and> 0 \<le> v)))"
proof (intro conjI impI)
  assume "cashflow_values row = Inr m"
  then show "\<exists>c. py_float (resolve row [''Capital Expenditure'', ''Net PPE Purchase And Sale''] zero) = Inr c
         \<and> capital_expenditures m = to_sql (py_abs c)"
    by (rule cashflow_values_abs)
next
  assume a: "fetch_and_store_batch yf clk tickers d = (d', ev)"
  have w: "written_within (set (map upper tickers)) d d'"
    using batch_written [of tickers d yf clk] a by simp
  then have "set (tbl_rows (cashflow_statement d')) \<subseteq> set (tbl_rows (cashflow_statement d))
      \<union> {r. row_ticker r \<in> set (map upper tickers) \<and> capex_ok (row_metrics r)}"
    by (simp add: written_within_def grows_def)
  then show "\<forall>r \<in> set (tbl_rows (cashflow_statement d')).
          r \<in> set (tbl_rows (cashflow_statement d))
          \<or> capital_expenditures (row_metrics r) = None
          \<or> (\<exists>v. capital_expenditures (row_metrics r) = Some v \<and> 0 \<le> v)"
    by (auto simp: capex_ok_def split: option.splits)
qed

theorem cashflow_capex_abs_witness:
  "cashflow_values [(''Capital Expenditure'', Num (-7))]
      = Inr \<lparr>operating_cash_flow = Some 0, capital_expenditures = Some 7\<rparr>
   \<and> to_sql (py_abs (Num (-7))) = Some 7
   \<and> map (capital_expenditures \<circ> row_metrics)
       (tbl_rows (cashflow_statement (fst (fetch_and_store_batch demo_yf clock0 [''aaa''] empty_db))))
     = [Some 7]
   \<and> (0::real) \<le> 7"
proof -
  have h: "cashflow_values [(''Capital Expenditure'', Num (-7))]
      = Inr \<lparr>operating_cash_flow = Some 0, capital_expenditures = Some 7\<rparr>"
    by (simp add: cashflow_values_def bind_err_def series_get_def values_at_def)
  note t = cashflow_capex_abs [THEN conjunct1, THEN mp, OF h]
  note u = cashflow_capex_abs [THEN conjunct2, THEN mp, OF demo_aaa]
  have 1: "to_sql (py_abs (Num (-7))) = Some 7"
    using t by (simp add: resolve_def series_get_def values_at_def)
  have 2: "map (capital_expenditures \<circ> row_metrics) (tbl_rows (cashflow_statement aaa_db)) = [Some 7]
      \<and> (0::real) \<le> 7"
    using u by (simp add: aaa_db_def empty_db_def empty_table_def)
  from h 1 2 show ?thesis by (simp add: demo_aaa)
qed

text \<open>
  C10 as stated fails when the provider reports NaN for the capital expenditure of a
  period: the row is written with NULL in \<^verbatim>\<open>capital_expenditures\<close>, which is not a
  non-negative value.
\<close>

theorem cashflow_capex_null_counterexample:
  "map (capital_expenditures \<circ> row_metrics)
     (tbl_rows (cashflow_statement (fst (fetch_and_store_batch demo_yf clock0 [''nancapex''] empty_db))))
   = [None]"
  by (simp add: eval_defs upper_demo)

section \<open>Statement rows are appended, never replaced\<close>

lemma fold_max_ge: "(a::nat) \<le> fold max xs a"
proof (induction xs arbitrary: a)
  case Nil
  show ?case by simp
next
  case (Cons x xs)
  have "a \<le> max x a" by simp
  also have "\<dots> \<le> fold max xs (max x a)" by (rule Cons.IH)
  finally show ?case by simp
qed

lemma fold_max_mem: "x \<in> set xs \<Longrightarrow> (x::nat) \<le> fold max xs a"
proof (induction xs arbitrary: a)
  case Nil
  then show ?case by simp
next
  case (Cons y ys)
  show ?case
  proof (cases "x = y")
    case True
    have "x \<le> max y a" using True by simp
    also have "\<dots> \<le> fold max ys (max y a)" by (rule fold_max_ge)
    finally show ?thesis by simp
  next
    case False
    with Cons.prems have "x \<in> set ys" by simp
    then show ?thesis using Cons.IH by simp
  qed
qed

lemma insert_or_replace_stmt_appends:
  "tbl_rows (insert_or_replace_stmt t tk d m)
     = tbl_rows t @ [\<lparr>row_id = next_rowid t, row_ticker = tk, row_date = d, row_metrics = m\<rparr>]"
proof -
  have "row_id r \<noteq> next_rowid t" if "r \<in> set (tbl_rows t)" for r
  proof -
    from that have "row_id r \<in> set (map row_id (tbl_rows t))" by simp
    then have "row_id r \<le> fold max (map row_id (tbl_rows t)) 0" by (rule fold_max_mem)
    then show ?thesis by (simp add: next_rowid_def)
  qed
  then have "filter (\<lambda>r. row_id r \<noteq> next_rowid t) (tbl_rows t) = tbl_rows t"
    by (simp add: filter_id_conv)
  then show ?thesis by (simp add: insert_or_replace_stmt_def Let_def)
qed

text \<open>
  C1 fails on the code. The statement tables have no uniqueness constraint on
  (ticker, date), so \<^verbatim>\<open>INSERT OR REPLACE\<close> never finds a row to replace: running the
  batch fetcher twice on the same balance sheet leaves two rows for the same
  (ticker, period-end date).
\<close>

theorem statement_upsert_duplicates:
  "map (\<lambda>r. (row_ticker r, row_date r))
     (tbl_rows (balance_sheet (fst (fetch_and_store_batch demo_yf clock0 [''aaa'']
        (fst (fetch_and_store_batch demo_yf clock0 [''aaa''] empty_db))))))
   = [(''AAA'', ''2023-12-31''), (''AAA'', ''2023-12-31'')]"
  by (simp add: demo_aaa) (simp add: eval_defs upper_demo aaa_db_def)

section \<open>Price resolution\<close>

text \<open>
  C2 fails on the code. When the fast path returns 0 and the one-day history is empty,
  neither path yields a usable price, yet \<^verbatim>\<open>price is None\<close> is false for 0: the ticker
  is not skipped and rows with price 0 are written.
\<close>

theorem zero_price_not_skipped:
  "yf_fast_last_price (priced 0) = Inr (Some (Num 0)) \<and> yf_history_close (priced 0) = Inr []
   \<and> demo_yf ''ZERO'' = Inr (priced 0)
   \<and> map (\<lambda>r. (pr_ticker r, pr_close r))
        (prices (fst (fetch_and_store_batch demo_yf clock0 [''zero''] empty_db)))
      = [(''ZERO'', Some 0)]
   \<and> snd (fetch_and_store_batch demo_yf clock0 [''zero''] empty_db)
      = [SYNC ''ZERO'', UPDATE ''ZERO'' (Num 0) (PStr ''USD'')]"
  by (simp add: eval_defs upper_demo)

section \<open>Price history\<close>

lemma history_kept_refl: "history_kept d d"
  by (simp add: history_kept_def)

lemma history_kept_trans: "history_kept d d1 \<Longrightarrow> history_kept d1 d2 \<Longrightarrow> history_kept d d2"
  by (auto simp: history_kept_def)

lemma history_kept_insert: "history_kept d (insert_or_ignore_history r d)"
  by (auto simp: history_kept_def insert_or_ignore_history_def history_key_def)

lemma history_kept_eq: "price_history d' = price_history d \<Longrightarrow> history_kept d d'"
  by (simp add: history_kept_def)

lemma price_history_body_writes:
  "price_history (body_writes clk t tk price row d)
     = price_history (insert_or_ignore_history
          \<lparr>ph_ticker = tk, ph_date = sql_today clk, ph_close = to_sql price,
           ph_last_updated = sql_now clk\<rparr> d)"
  by (simp add: body_writes_def try_fundamentals_frame insert_or_ignore_history_def
        insert_or_replace_price_def insert_or_replace_stock_def)

lemma history_kept_body_writes: "history_kept d (body_writes clk t tk price row d)"
proof -
  let ?r = "\<lparr>ph_ticker = tk, ph_date = sql_today clk, ph_close = to_sql price,
           ph_last_updated = sql_now clk\<rparr>"
  have "history_kept d (insert_or_ignore_history ?r d)" by (rule history_kept_insert)
  moreover have "history_kept (insert_or_ignore_history ?r d) (body_writes clk t tk price row d)"
    by (rule history_kept_eq) (rule price_history_body_writes)
  ultimately show ?thesis by (rule history_kept_trans)
qed

lemma history_kept_process:
  "history_kept (working c) (working (fst (process_ticker yf clk tk c)))"
proof (cases rule: process_ticker_cases [of yf clk tk])
  case (error e)
  then show ?thesis by (simp add: history_kept_refl)
next
  case skip
  then show ?thesis by (simp add: history_kept_refl)
next
  case (update t price row cur)
  from update(4) [of c] obtain c' where
    "fst (process_ticker yf clk tk c) = c'"
    "working c' = body_writes clk t tk price row (working c)" by auto
  then show ?thesis by (simp add: history_kept_body_writes)
qed

lemma history_kept_loop:
  "history_kept (working c) (working (fst (batch_loop yf clk ts c)))"
proof (induction ts arbitrary: c)
  case Nil
  show ?case by (simp add: history_kept_refl)
next
  case (Cons tk ts)
  show ?case
    unfolding batch_loop_Cons fst_conv
    by (rule history_kept_trans [OF history_kept_process Cons.IH])
qed

lemma history_kept_batch: "history_kept d (fst (fetch_and_store_batch yf clk tickers d))"
  using history_kept_loop [of "connect d" yf clk "map upper tickers"]
  by (simp add: fetch_and_store_batch_loop connect_def)

section \<open>One try block for the three statement kinds\<close>

lemma store_rows_prefix:
  "\<exists>xs. tbl_rows (snd (store_rows extract tk rs t)) = tbl_rows t @ xs"
proof (induction rs arbitrary: t)
  case Nil
  show ?case by simp
next
  case (Cons dr rs)
  obtain date row where dr: "dr = (date, row)" by (cases dr)
  show ?case
  proof (cases "extract (strip_index row)")
    case (Inl e)
    then show ?thesis by (simp add: dr)
  next
    case (Inr m)
    from Cons.IH [of "insert_or_replace_stmt t tk date m"] obtain xs where
      "tbl_rows (snd (store_rows extract tk rs (insert_or_replace_stmt t tk date m)))
         = tbl_rows (insert_or_replace_stmt t tk date m) @ xs" by blast
    then show ?thesis by (simp add: dr Inr insert_or_replace_stmt_appends)
  qed
qed

lemma store_statement_prefix:
  "\<exists>xs. tbl_rows (snd (store_statement extract tk src t)) = tbl_rows t @ xs"
  using store_rows_prefix [of "extract" tk _ t]
  by (auto simp: store_statement_def split: sum.splits option.splits)

lemma fundamentals_result:
  "fetch_and_store_fundamentals t tk c =
     (case fst (try_fundamentals t tk (working c)) of
        None \<Rightarrow> (commit (c\<lparr>working := snd (try_fundamentals t tk (working c))\<rparr>), [])
      | Some e \<Rightarrow> (c\<lparr>working := snd (try_fundamentals t tk (working c))\<rparr>,
                   [FUNDAMENTALS_ERROR tk e]))"
proof -
  obtain e d where td: "try_fundamentals t tk (working c) = (e, d)"
    by (cases "try_fundamentals t tk (working c)")
  show ?thesis by (cases e) (simp_all add: fetch_and_store_fundamentals_def td)
qed

text \<open>
  C3, as the code has it. The three statement kinds share one \<^verbatim>\<open>try\<close> block. An
  exception while retrieving or processing a kind never leaves
  \<^verbatim>\<open>fetch_and_store_fundamentals\<close>: it is logged once, with the ticker and the cause, and
  ends the block. The kinds before it (order: balance sheet, income, cashflow) are
  stored, the rows the failing kind inserted before the exception stay, the kinds after
  it are not processed, and no table loses a row. Without an exception all three are
  stored and committed.
\<close>

theorem fundamentals_failure_contained:
  assumes "fetch_and_store_fundamentals t tk c = (c', ev)"
    and "store_statement balance_values tk (yf_balance_sheet t) (balance_sheet (working c)) = (eb, B)"
    and "store_statement income_values tk (yf_financials t) (income_statement (working c)) = (ei, I)"
    and "store_statement cashflow_values tk (yf_cashflow t) (cashflow_statement (working c)) = (ec, C)"
  shows "(eb = Some e \<longrightarrow> ev = [FUNDAMENTALS_ERROR tk e] \<and> balance_sheet (working c') = B
            \<and> income_statement (working c') = income_statement (working c)
            \<and> cashflow_statement (working c') = cashflow_statement (working c))
    \<and> (eb = None \<and> ei = Some e \<longrightarrow> ev = [FUNDAMENTALS_ERROR tk e] \<and> balance_sheet (working c') = B
            \<and> income_statement (working c') = I
            \<and> cashflow_statement (working c') = cashflow_statement (working c))
    \<and> (eb = None \<and> ei = None \<and> ec = Some e \<longrightarrow> ev = [FUNDAMENTALS_ERROR tk e]
            \<and> balance_sheet (working c') = B \<and> income_statement (working c') = I
            \<and> cashflow_statement (working c') = C)
    \<and> (eb = None \<and> ei = None \<and> ec = None \<longrightarrow> ev = []
            \<and> balance_sheet (working c') = B \<and> income_statement (working c') = I
            \<and> cashflow_statement (working c') = C \<and> committed c' = working c')
    \<and> (\<exists>xs. tbl_rows B = tbl_rows (balance_sheet (working c)) @ xs)
    \<and> (\<exists>xs. tbl_rows I = tbl_rows (income_statement (working c)) @ xs)
    \<and> (\<exists>xs. tbl_rows C = tbl_rows (cashflow_statement (working c)) @ xs)
    \<and> prices (working c') = prices (working c) \<and> stocks (working c') = stocks (working c)
    \<and> price_history (working c') = price_history (working c)
    \<and> update_requests (working c') = update_requests (working c)"
proof -
  have w: "working c' = snd (try_fundamentals t tk (working c))"
    using working_fundamentals [of t tk c] assms(1) by simp
  have tf: "try_fundamentals t tk (working c) =
      (if eb \<noteq> None then (eb, (working c)\<lparr>balance_sheet := B\<rparr>)
       else if ei \<noteq> None then (ei, (working c)\<lparr>balance_sheet := B, income_statement := I\<rparr>)
       else (ec, (working c)\<lparr>balance_sheet := B, income_statement := I, cashflow_statement := C\<rparr>))"
    by (simp add: try_fundamentals_alt assms(2,3,4) Let_def)
  have r: "(c', ev) =
     (case fst (try_fundamentals t tk (working c)) of
        None \<Rightarrow> (commit (c\<lparr>working := snd (try_fundamentals t tk (working c))\<rparr>), [])
      | Some e \<Rightarrow> (c\<lparr>working := snd (try_fundamentals t tk (working c))\<rparr>,
                   [FUNDAMENTALS_ERROR tk e]))"
    using fundamentals_result [of t tk c] assms(1) by simp
  have 1: "eb = Some e \<longrightarrow> ev = [FUNDAMENTALS_ERROR tk e] \<and> balance_sheet (working c') = B
            \<and> income_statement (working c') = income_statement (working c)
            \<and> cashflow_statement (working c') = cashflow_statement (working c)"
    using r by (auto simp: tf w)
  have 2: "eb = None \<and> ei = Some e \<longrightarrow> ev = [FUNDAMENTALS_ERROR tk e] \<and> balance_sheet (working c') = B
            \<and> income_statement (working c') = I
            \<and> cashflow_statement (working c') = cashflow_statement (working c)"
    using r by (auto simp: tf w)
  have 3: "eb = None \<and> ei = None \<and> ec = Some e \<longrightarrow> ev = [FUNDAMENTALS_ERROR tk e]
            \<and> balance_sheet (working c') = B \<and> income_statement (working c') = I
            \<and> cashflow_statement (working c') = C"
    using r by (auto simp: tf w)
  have 4: "eb = None \<and> ei = None \<and> ec = None \<longrightarrow> ev = []
            \<and> balance_sheet (working c') = B \<and> income_statement (working c') = I
            \<and> cashflow_statement (working c') = C \<and> committed c' = working c'"
    using r by (auto simp: tf w commit_def)
  have 5: "\<exists>xs. tbl_rows B = tbl_rows (balance_sheet (working c)) @ xs"
    using store_statement_prefix [of balance_values tk "yf_balance_sheet t" "balance_sheet (working c)"]
    by (simp add: assms(2))
  have 6: "\<exists>xs. tbl_rows I = tbl_rows (income_statement (working c)) @ xs"
    using store_statement_prefix [of income_values tk "yf_financials t" "income_statement (working c)"]
    by (simp add: assms(3))
  have 7: "\<exists>xs. tbl_rows C = tbl_rows (cashflow_statement (working c)) @ xs"
    using store_statement_prefix [of cashflow_values tk "yf_cashflow t" "cashflow_statement (working c)"]
    by (simp add: assms(4))
  have 8: "prices (working c') = prices (working c) \<and> stocks (working c') = stocks (working c)
    \<and> price_history (working c') = price_history (working c)
    \<and> update_requests (working c') = update_requests (working c)"
    by (simp add: w try_fundamentals_frame)
  note 8 = 8 [THEN conjunct1] 8 [THEN conjunct2, THEN conjunct1]
    8 [THEN conjunct2, THEN conjunct2, THEN conjunct1]
    8 [THEN conjunct2, THEN conjunct2, THEN conjunct2]
  from 1 2 3 4 5 6 7 8 show ?thesis by (intro conjI) assumption+
qed

theorem fundamentals_failure_contained_witness:
  "snd (fetch_and_store_fundamentals broken_income ''AAA'' (connect empty_db))
     = [FUNDAMENTALS_ERROR ''AAA'' (ProviderError ''malformed'')]
   \<and> map row_date (tbl_rows (balance_sheet (working
        (fst (fetch_and_store_fundamentals broken_income ''AAA'' (connect empty_db))))))
     = [''2023-12-31'']
   \<and> cashflow_statement (working
        (fst (fetch_and_store_fundamentals broken_income ''AAA'' (connect empty_db))))
     = cashflow_statement (working (connect empty_db))"
proof -
  have b: "store_statement balance_values ''AAA'' (yf_balance_sheet broken_income)
       (balance_sheet (working (connect empty_db)))
     = (None, \<lparr>tbl_rows = [\<lparr>row_id = 1, row_ticker = ''AAA'', row_date = ''2023-12-31'',
              row_metrics = \<lparr>total_assets = Some 100, total_liabilities = Some 0,
                total_debt = Some 0, total_cash = Some 0\<rparr>\<rparr>], tbl_seq = 1\<rparr>)"
    by (simp add: eval_defs broken_income_def)
  have i: "store_statement income_values ''AAA'' (yf_financials broken_income)
       (income_statement (working (connect empty_db)))
     = (Some (ProviderError ''malformed''), income_statement (working (connect empty_db)))"
    by (simp add: store_statement_def broken_income_def full_ticker_def)
  have c: "store_statement cashflow_values ''AAA'' (yf_cashflow broken_income)
       (cashflow_statement (working (connect empty_db)))
     = (fst (store_statement cashflow_values ''AAA'' (yf_cashflow broken_income)
          (cashflow_statement (working (connect empty_db)))),
        snd (store_statement cashflow_values ''AAA'' (yf_cashflow broken_income)
          (cashflow_statement (working (connect empty_db)))))" by simp
  have h: "fetch_and_store_fundamentals broken_income ''AAA'' (connect empty_db)
     = (fst (fetch_and_store_fundamentals broken_income ''AAA'' (connect empty_db)),
        snd (fetch_and_store_fundamentals broken_income ''AAA'' (connect empty_db)))" by simp
  note t = fundamentals_failure_contained [OF h b i c, of "ProviderError ''malformed''",
      THEN conjunct2, THEN conjunct1]
  then show ?thesis by simp
qed

text \<open>
  C3 as stated fails: when retrieving the balance sheet raises, the income statement
  and the cashflow statement the provider does have for the ticker are not processed.
\<close>

theorem fundamentals_abort_counterexample:
  "yf_financials broken_balance = Inr (Some (one_period '' EBIT'' (Num 5)))
   \<and> yf_cashflow broken_balance = Inr (Some (one_period ''Capital Expenditure'' (Num (-7))))
   \<and> fetch_and_store_fundamentals broken_balance ''AAA'' (connect empty_db)
     = (connect empty_db, [FUNDAMENTALS_ERROR ''AAA'' (ProviderError ''malformed'')])
   \<and> tbl_rows (income_statement (working (connect empty_db))) = []
   \<and> tbl_rows (cashflow_statement (working (connect empty_db))) = []"
  by (simp add: fetch_and_store_fundamentals_def try_fundamentals_def store_statement_def
        broken_balance_def full_ticker_def connect_def empty_db_def empty_table_def)

section \<open>The request queue\<close>

lemma update_requests_fold_delete:
  "update_requests (fold delete_request rids d)
     = filter (\<lambda>r. req_id r \<notin> set rids) (update_requests d)"
  by (induction rids arbitrary: d) (auto simp: delete_request_def intro: filter_cong)

lemma fold_delete_frame:
  "prices (fold delete_request rids d) = prices d"
  "stocks (fold delete_request rids d) = stocks d"
  "price_history (fold delete_request rids d) = price_history d"
  "balance_sheet (fold delete_request rids d) = balance_sheet d"
  "income_statement (fold delete_request rids d) = income_statement d"
  "cashflow_statement (fold delete_request rids d) = cashflow_statement d"
  by (induction rids arbitrary: d) (simp_all add: delete_request_def)

lemma dequeue_fst: "fst (dequeue d) = select_pending d"
  by (simp add: dequeue_def Let_def connect_def)

lemma dequeue_requests:
  "update_requests (snd (dequeue d))
     = filter (\<lambda>r. req_id r \<notin> fst ` set (select_pending d)) (update_requests d)"
  by (simp add: dequeue_def Let_def connect_def execute_def commit_def close_def
        delete_requests_def update_requests_fold_delete)

lemma pending_ids: "req_processed r = 0 \<Longrightarrow> r \<in> set (update_requests d)
    \<Longrightarrow> req_id r \<in> fst ` set (select_pending d)"
  by (force simp: select_pending_def)

lemma dequeue_none_pending: "select_pending (snd (dequeue d)) = []"
proof -
  have "filter (\<lambda>r. req_processed r = 0) (update_requests (snd (dequeue d))) = []"
    unfolding dequeue_requests filter_filter
    by (auto simp: filter_empty_conv dest: pending_ids)
  then show ?thesis by (simp add: select_pending_def)
qed

lemma batch_keeps_requests:
  "update_requests (fst (fetch_and_store_batch yf clk tickers d)) = update_requests d"
  using batch_written [of tickers d yf clk] by (simp add: written_within_def)

lemma run_batches_keeps_requests:
  "update_requests (fst (run_batches yf clk bs d)) = update_requests d"
  by (induction bs arbitrary: d) (simp_all add: split_beta batch_keeps_requests)

lemma refresh_keeps_requests:
  "update_requests (fst (refresh_all_tickers yf clk d)) = update_requests d"
  by (simp add: refresh_all_tickers_def Let_def split_beta run_batches_keeps_requests)

lemma daemon_iteration_requests:
  "daemon_iteration env s d =
     (s\<lparr>sleep_time := SLEEP_ACTIVE\<rparr>,
      fst (fetch_and_store_batch (env_yf env) (env_clock env) (map snd (select_pending d))
             (snd (dequeue d))),
      WAKE (map snd (select_pending d))
        # snd (fetch_and_store_batch (env_yf env) (env_clock env) (map snd (select_pending d))
             (snd (dequeue d))))"
  if "select_pending d \<noteq> []"
  using that by (simp add: daemon_iteration_def split_beta Let_def dequeue_fst)

lemma idle_pending: "select_pending d = [] \<Longrightarrow> select_pending d' = []"
  if "update_requests d' = update_requests d"
  using that by (simp add: select_pending_def)

lemma daemon_iteration_no_pending:
  assumes "select_pending d = []"
  shows "update_requests (fst (snd (daemon_iteration env s d))) = update_requests d"
  using assms by (simp add: daemon_iteration_def split_beta refresh_keeps_requests)

lemma daemon_passes_no_pending:
  assumes "select_pending d = []"
  shows "update_requests (fst (snd (daemon_passes envs s d))) = update_requests d"
  using assms
proof (induction envs arbitrary: s d)
  case Nil
  show ?case by simp
next
  case (Cons env envs)
  let ?d1 = "fst (snd (daemon_iteration env s d))"
  have 1: "update_requests ?d1 = update_requests d"
    by (rule daemon_iteration_no_pending [OF Cons.prems])
  then have "select_pending ?d1 = []" using Cons.prems by (simp add: select_pending_def)
  from Cons.IH [OF this] 1 show ?case by (simp add: split_beta)
qed

section \<open>The request queue under failures of the fetcher\<close>

lemma committed_fundamentals:
  "committed (fst (fetch_and_store_fundamentals t tk c)) = committed c
   \<or> committed (fst (fetch_and_store_fundamentals t tk c))
       = working (fst (fetch_and_store_fundamentals t tk c))"
  by (cases "fst (try_fundamentals t tk (working c))")
    (simp_all add: fundamentals_result commit_def)

lemma ticker_body_committed:
  "committed (fst (snd (ticker_body yf clk tk c))) = committed c
   \<or> committed (fst (snd (ticker_body yf clk tk c)))
       = working (fst (snd (ticker_body yf clk tk c)))"
proof (cases "yf tk")
  case (Inl e)
  then show ?thesis by (simp add: ticker_body_def)
next
  case t: (Inr t)
  show ?thesis
  proof (cases "resolve_price t")
    case (Inl e)
    with t show ?thesis by (simp add: ticker_body_def)
  next
    case p: (Inr po)
    show ?thesis
    proof (cases po)
      case None
      with t p show ?thesis by (simp add: ticker_body_def)
    next
      case (Some price)
      show ?thesis
      proof (cases "yf_info t")
        case (Inl e)
        with t p Some show ?thesis by (simp add: ticker_body_def)
      next
        case io: (Inr io)
        show ?thesis
        proof (cases "snapshot clk tk price (case io of None \<Rightarrow> Map.empty | Some m \<Rightarrow> m)")
          case (Inl e)
          with t p Some io show ?thesis by (simp add: ticker_body_def)
        next
          case (Inr rc)
          obtain row cur where rc: "rc = (row, cur)" by (cases rc)
          define c3 where "c3 = execute (insert_or_ignore_history
                      \<lparr>ph_ticker = tk, ph_date = sql_today clk, ph_close = to_sql price,
                       ph_last_updated = sql_now clk\<rparr>)
                (execute (insert_or_replace_price
                      \<lparr>pr_ticker = tk, pr_date = py_now clk, pr_close = to_sql price,
                       pr_last_updated = sql_now clk\<rparr>)
                (execute (insert_or_replace_stock row) c))"
          have cc: "committed c3 = committed c" by (simp add: c3_def execute_def)
          have tb: "fst (snd (ticker_body yf clk tk c)) = fst (fetch_and_store_fundamentals t tk c3)"
            using t p Some io Inr rc by (simp add: ticker_body_def Let_def split_beta c3_def)
          show ?thesis
            using committed_fundamentals [of t tk c3] by (simp add: tb cc)
        qed
      qed
    qed
  qed
qed

lemma process_ticker_committed:
  "committed (fst (process_ticker yf clk tk c)) = committed c
   \<or> committed (fst (process_ticker yf clk tk c)) = working (fst (process_ticker yf clk tk c))"
proof -
  have "fst (process_ticker yf clk tk c) = fst (snd (ticker_body yf clk tk c))"
    by (cases "ticker_body yf clk tk c" rule: prod_cases3)
      (simp add: process_ticker_def split: option.splits)
  then show ?thesis using ticker_body_committed [of yf clk tk c] by simp
qed

lemma process_ticker_keeps_requests:
  "update_requests (working (fst (process_ticker yf clk tk c))) = update_requests (working c)"
  using process_ticker_written [of tk c yf clk] by (simp add: written_within_def)

lemma batch_loop_requests:
  assumes "update_requests (committed c) = U" and "update_requests (working c) = U"
  shows "update_requests (committed (fst (batch_loop yf clk ts c))) = U
       \<and> update_requests (working (fst (batch_loop yf clk ts c))) = U"
  using assms
proof (induction ts arbitrary: c)
  case Nil
  then show ?case by simp
next
  case (Cons tk ts)
  let ?c1 = "fst (process_ticker yf clk tk c)"
  have w: "update_requests (working ?c1) = U"
    using process_ticker_keeps_requests [of yf clk tk c] Cons.prems by simp
  have k: "update_requests (committed ?c1) = U"
    using process_ticker_committed [of yf clk tk c] w Cons.prems by auto
  show ?case
    unfolding batch_loop_Cons fst_conv by (rule Cons.IH [OF k w])
qed

lemma fetch_io_keeps_requests:
  "update_requests (fst (snd (fetch_and_store_batch_io f yf clk tickers d))) = update_requests d"
proof -
  have b: "update_requests (committed (fst (batch_loop yf clk ts (connect d)))) = update_requests d
       \<and> update_requests (working (fst (batch_loop yf clk ts (connect d)))) = update_requests d" for ts
    by (rule batch_loop_requests) (simp_all add: connect_def)
  show ?thesis
    by (cases f) (simp_all add: fetch_and_store_batch_io_def split_beta b commit_def close_def)
qed

lemma fetch_io_no_fault:
  "fetch_and_store_batch_io NoFault yf clk tickers d
     = (Returned, fst (fetch_and_store_batch yf clk tickers d),
        snd (fetch_and_store_batch yf clk tickers d))"
  by (simp add: fetch_and_store_batch_io_def fetch_and_store_batch_def split_beta)

lemma serve_requests_result:
  "serve_requests f env s d =
     (fst (fetch_and_store_batch_io f (env_yf env) (env_clock env) (map snd (select_pending d))
             (snd (dequeue d))),
      s\<lparr>sleep_time := SLEEP_ACTIVE\<rparr>,
      fst (snd (fetch_and_store_batch_io f (env_yf env) (env_clock env)
             (map snd (select_pending d)) (snd (dequeue d)))),
      WAKE (map snd (select_pending d))
        # snd (snd (fetch_and_store_batch_io f (env_yf env) (env_clock env)
             (map snd (select_pending d)) (snd (dequeue d)))))"
  by (simp add: serve_requests_def split_beta Let_def dequeue_fst)

lemma start_keeps_requests:
  "update_requests (fst (snd (daemon_start env d))) = update_requests d"
  by (simp add: daemon_start_def split_beta refresh_keeps_requests)

text \<open>
  C4. On a pass that finds pending requests the rows read are deleted and the deletion
  is committed before the batch fetcher is called, so the deletion does not depend on
  how the fetcher ends. Whether the fetcher returns, raises out of the daemon (store
  failure at connect, at the final commit or after it) or the process is terminated
  inside the loop, the database file left behind holds no row with a dequeued id and no
  pending request; the fetcher was started on exactly the tickers read; and neither a
  restart of the daemon nor any number of later passes brings a dequeued request back.
  When the fetcher returns, the branch is the one \<open>daemon_iteration\<close> takes.
\<close>

theorem requests_dequeued_before_fetch:
  assumes "select_pending d \<noteq> []" and "serve_requests f env s d = (fin, s', d', ev)"
  shows "(\<forall>r \<in> set (update_requests d'). req_id r \<notin> fst ` set (select_pending d))
    \<and> update_requests d'
        = filter (\<lambda>r. req_id r \<notin> fst ` set (select_pending d)) (update_requests d)
    \<and> select_pending d' = []
    \<and> (\<exists>rest. ev = WAKE (map snd (select_pending d)) # rest)
    \<and> (f = NoFault \<longrightarrow> fin = Returned \<and> daemon_iteration env s d = (s', d', ev))
    \<and> update_requests (fst (snd (daemon_start env1 d'))) = update_requests d'
    \<and> update_requests (fst (snd (daemon_passes envs s1 d'))) = update_requests d'"
proof -
  let ?io = "fetch_and_store_batch_io f (env_yf env) (env_clock env) (map snd (select_pending d))
             (snd (dequeue d))"
  from serve_requests_result [of f env s d] assms(2)
  have fin: "fin = fst ?io" and s': "s' = s\<lparr>sleep_time := SLEEP_ACTIVE\<rparr>"
    and d': "d' = fst (snd ?io)" and ev: "ev = WAKE (map snd (select_pending d)) # snd (snd ?io)"
    by simp_all
  have u: "update_requests d'
        = filter (\<lambda>r. req_id r \<notin> fst ` set (select_pending d)) (update_requests d)"
    unfolding d' fetch_io_keeps_requests by (rule dequeue_requests)
  have 1: "\<forall>r \<in> set (update_requests d'). req_id r \<notin> fst ` set (select_pending d)"
    unfolding u by simp
  have "update_requests d' = update_requests (snd (dequeue d))"
    unfolding d' by (rule fetch_io_keeps_requests)
  then have p: "select_pending d' = []"
    using dequeue_none_pending [of d] by (simp add: select_pending_def)
  have 4: "\<exists>rest. ev = WAKE (map snd (select_pending d)) # rest" using ev by simp
  have 5: "f = NoFault \<longrightarrow> fin = Returned \<and> daemon_iteration env s d = (s', d', ev)"
    using daemon_iteration_requests [OF assms(1), of env s]
    by (auto simp: fin s' d' ev fetch_io_no_fault)
  have 6: "update_requests (fst (snd (daemon_start env1 d'))) = update_requests d'"
    by (rule start_keeps_requests)
  have 7: "update_requests (fst (snd (daemon_passes envs s1 d'))) = update_requests d'"
    by (rule daemon_passes_no_pending [OF p])
  from 1 u p 4 5 6 7 show ?thesis by (intro conjI) assumption+
qed

lemma serve_killed:
  "serve_requests (Killed 1) quiet_env start_state queued_db
     = (Terminated, start_state\<lparr>sleep_time := SLEEP_ACTIVE\<rparr>,
        queued_db\<lparr>update_requests :=
          [\<lparr>req_id = 2, req_ticker = ''old'', req_requested_at = ''2024-04-30 07:59:00'',
            req_processed = 1\<rparr>]\<rparr>,
        [WAKE [''bad''], ERROR ''BAD'' (ProviderError ''no data'')])"
  by (simp add: serve_requests_def dequeue_def delete_requests_def delete_request_def
        select_pending_def queued_db_def empty_db_def quiet_env_def
        fetch_and_store_batch_io_def process_ticker_def ticker_body_def demo_yf_def
        upper_demo connect_def commit_def close_def execute_def Let_def)

theorem requests_dequeued_before_fetch_witness:
  "select_pending queued_db = [(1, ''bad'')]
   \<and> fst (serve_requests (Killed 1) quiet_env start_state queued_db) = Terminated
   \<and> map req_id (update_requests (fst (snd (snd
        (serve_requests (Killed 1) quiet_env start_state queued_db))))) = [2]
   \<and> select_pending (fst (snd (snd
        (serve_requests (Killed 1) quiet_env start_state queued_db)))) = []
   \<and> map req_id (update_requests (fst (snd (daemon_start boot_env (fst (snd (snd
        (serve_requests (Killed 1) quiet_env start_state queued_db)))))))) = [2]"
proof -
  have h1: "select_pending queued_db \<noteq> []"
    by (simp add: select_pending_def queued_db_def empty_db_def)
  note t = requests_dequeued_before_fetch [OF h1 serve_killed, where ?env1.0 = boot_env
      and ?s1.0 = start_state and envs = "[]"]
  note t2 = t [THEN conjunct2, THEN conjunct1]
  note t3 = t [THEN conjunct2, THEN conjunct2, THEN conjunct1]
  note t6 = t [THEN conjunct2, THEN conjunct2, THEN conjunct2, THEN conjunct2, THEN conjunct2,
      THEN conjunct1]
  have 0: "select_pending queued_db = [(1, ''bad'')]"
    by (simp add: select_pending_def queued_db_def empty_db_def)
  have 1: "fst (serve_requests (Killed 1) quiet_env start_state queued_db) = Terminated"
    unfolding serve_killed by (rule fst_conv)
  have 2: "map req_id (update_requests (fst (snd (snd
        (serve_requests (Killed 1) quiet_env start_state queued_db))))) = [2]"
    unfolding serve_killed snd_conv fst_conv t2
    by (simp add: 0) (simp add: queued_db_def empty_db_def)
  have 3: "select_pending (fst (snd (snd
        (serve_requests (Killed 1) quiet_env start_state queued_db)))) = []"
    unfolding serve_killed snd_conv fst_conv by (rule t3)
  have 4: "map req_id (update_requests (fst (snd (daemon_start boot_env (fst (snd (snd
        (serve_requests (Killed 1) quiet_env start_state queued_db)))))))) = [2]"
    using 2 unfolding serve_killed snd_conv fst_conv t6 .
  from 0 1 2 3 4 show ?thesis by (intro conjI) assumption+
qed

section \<open>The poll interval\<close>

lemma floor_log2:
  assumes "0 < x" and "2 powr (of_int e) \<le> x" and "x < 2 powr (of_int e + 1)"
  shows "\<lfloor>log 2 x\<rfloor> = e"
proof (rule floor_unique)
  show "of_int e \<le> log 2 x" using assms by (simp add: le_log_iff)
  show "log 2 x < of_int e + 1" using assms by (simp add: log_less_iff)
qed

lemma binary64_binade:
  assumes "0 < x" and "2 powr (of_int e) \<le> x" and "x < 2 powr (of_int e + 1)"
  shows "binary64 x = of_int (round_even (x / 2 powr (of_int e - 52))) * 2 powr (of_int e - 52)"
  using assms floor_log2 [OF assms] by (simp add: binary64_def Let_def)

lemma binary64_eval:
  assumes "0 < x" and "2 powr (of_int e) \<le> x" and "x < 2 powr (of_int e + 1)"
    and "2 powr (of_int e - 52) = u" and "round_even (x / u) = m"
  shows "binary64 x = of_int m * u"
  using binary64_binade [OF assms(1,2,3)] assms(4,5) by simp

lemma powr_int_values:
  "2 powr (- 55) = (1 / 2 ^ 55 :: real)" "2 powr (- 54) = (1 / 2 ^ 54 :: real)"
  "2 powr (- 53) = (1 / 2 ^ 53 :: real)" "2 powr (- 52) = (1 / 2 ^ 52 :: real)"
  "2 powr (- 51) = (1 / 2 ^ 51 :: real)" "2 powr (- 50) = (1 / 2 ^ 50 :: real)"
  by (simp_all add: powr_minus powr_numeral flip: powr_realpow)

lemma sleep_active_value: "SLEEP_ACTIVE = 3602879701896397 / 2 ^ 54"
proof -
  have "binary64 (2 / 10) = of_int 7205759403792794 * (1 / 2 ^ 55)"
    by (rule binary64_eval [where e = "- 3"])
      (simp_all add: powr_minus powr_int_values round_even_def Let_def)
  then show ?thesis by (simp add: SLEEP_ACTIVE_def)
qed

lemma backoff_step_0: "backoff (3602879701896397 / 2 ^ 54) = 1351079888211149 / 2 ^ 52"
proof -
  have "binary64 (3602879701896397 / 2 ^ 54 * (15 / 10)) = of_int 5404319552844596 * (1 / 2 ^ 54)"
    by (rule binary64_eval [where e = "- 2"])
      (simp_all add: powr_minus powr_int_values round_even_def Let_def)
  then show ?thesis by (simp add: backoff_def fl_mul_def SLEEP_IDLE_def)
qed

lemma backoff_step_1: "backoff (1351079888211149 / 2 ^ 52) = 4053239664633447 / 2 ^ 53"
proof -
  have "binary64 (1351079888211149 / 2 ^ 52 * (15 / 10)) = of_int 8106479329266894 * (1 / 2 ^ 54)"
    by (rule binary64_eval [where e = "- 2"])
      (simp_all add: powr_minus powr_int_values round_even_def Let_def)
  then show ?thesis by (simp add: backoff_def fl_mul_def SLEEP_IDLE_def)
qed

lemma backoff_step_2: "backoff (4053239664633447 / 2 ^ 53) = 3039929748475085 / 2 ^ 52"
proof -
  have "binary64 (4053239664633447 / 2 ^ 53 * (15 / 10)) = of_int 6079859496950170 * (1 / 2 ^ 53)"
    by (rule binary64_eval [where e = "- 1"])
      (simp_all add: powr_minus powr_int_values round_even_def Let_def)
  then show ?thesis by (simp add: backoff_def fl_mul_def SLEEP_IDLE_def)
qed

lemma backoff_step_3: "backoff (3039929748475085 / 2 ^ 52) = 1139973655678157 / 2 ^ 50"
proof -
  have "binary64 (3039929748475085 / 2 ^ 52 * (15 / 10)) = of_int 4559894622712628 * (1 / 2 ^ 52)"
    by (rule binary64_eval [where e = "0"])
      (simp_all add: powr_minus powr_int_values round_even_def Let_def)
  then show ?thesis by (simp add: backoff_def fl_mul_def SLEEP_IDLE_def)
qed

lemma backoff_step_4: "backoff (1139973655678157 / 2 ^ 50) = 3419920967034471 / 2 ^ 51"
proof -
  have "binary64 (1139973655678157 / 2 ^ 50 * (15 / 10)) = of_int 6839841934068942 * (1 / 2 ^ 52)"
    by (rule binary64_eval [where e = "0"])
      (simp_all add: powr_minus powr_int_values round_even_def Let_def)
  then show ?thesis by (simp add: backoff_def fl_mul_def SLEEP_IDLE_def)
qed

lemma backoff_step_5: "backoff (3419920967034471 / 2 ^ 51) = 2564940725275853 / 2 ^ 50"
proof -
  have "binary64 (3419920967034471 / 2 ^ 51 * (15 / 10)) = of_int 5129881450551706 * (1 / 2 ^ 51)"
    by (rule binary64_eval [where e = "1"])
      (simp_all add: powr_minus powr_int_values round_even_def Let_def)
  then show ?thesis by (simp add: backoff_def fl_mul_def SLEEP_IDLE_def)
qed

lemma backoff_step_6: "backoff (2564940725275853 / 2 ^ 50) = 7694822175827559 / 2 ^ 51"
proof -
  have "binary64 (2564940725275853 / 2 ^ 50 * (15 / 10)) = of_int 7694822175827559 * (1 / 2 ^ 51)"
    by (rule binary64_eval [where e = "1"])
      (simp_all add: powr_minus powr_int_values round_even_def Let_def)
  then show ?thesis by (simp add: backoff_def fl_mul_def SLEEP_IDLE_def)
qed

lemma backoff_step_7: "backoff (7694822175827559 / 2 ^ 51) = 5"
proof -
  have "binary64 (7694822175827559 / 2 ^ 51 * (15 / 10)) = of_int 5771116631870669 * (1 / 2 ^ 50)"
    by (rule binary64_eval [where e = "2"])
      (simp_all add: powr_minus powr_int_values round_even_def Let_def)
  then show ?thesis by (simp add: backoff_def fl_mul_def SLEEP_IDLE_def)
qed

lemma backoff_idle: "backoff (5) = 5"
proof -
  have "binary64 (5 * (15 / 10)) = of_int 8444249301319680 * (1 / 2 ^ 50)"
    by (rule binary64_eval [where e = "2"])
      (simp_all add: powr_minus powr_int_values round_even_def Let_def)
  then show ?thesis by (simp add: backoff_def fl_mul_def SLEEP_IDLE_def)
qed

lemma backoff_iter_0: "(backoff ^^ 0) SLEEP_ACTIVE = 3602879701896397 / 2 ^ 54"
  by (simp only: funpow_0 sleep_active_value)

lemma backoff_iter_1: "(backoff ^^ 1) SLEEP_ACTIVE = 1351079888211149 / 2 ^ 52"
proof -
  have "(backoff ^^ 1) SLEEP_ACTIVE = backoff ((backoff ^^ 0) SLEEP_ACTIVE)"
    by (simp add: eval_nat_numeral)
  also have "\<dots> = backoff (3602879701896397 / 2 ^ 54)" by (simp only: backoff_iter_0)
  also have "\<dots> = 1351079888211149 / 2 ^ 52" by (rule backoff_step_0)
  finally show ?thesis .
qed

lemma backoff_iter_2: "(backoff ^^ 2) SLEEP_ACTIVE = 4053239664633447 / 2 ^ 53"
proof -
  have "(backoff ^^ 2) SLEEP_ACTIVE = backoff ((backoff ^^ 1) SLEEP_ACTIVE)"
    by (simp add: eval_nat_numeral)
  also have "\<dots> = backoff (1351079888211149 / 2 ^ 52)" by (simp only: backoff_iter_1)
  also have "\<dots> = 4053239664633447 / 2 ^ 53" by (rule backoff_step_1)
  finally show ?thesis .
qed

lemma backoff_iter_3: "(backoff ^^ 3) SLEEP_ACTIVE = 3039929748475085 / 2 ^ 52"
proof -
  have "(backoff ^^ 3) SLEEP_ACTIVE = backoff ((backoff ^^ 2) SLEEP_ACTIVE)"
    by (simp add: eval_nat_numeral)
  also have "\<dots> = backoff (4053239664633447 / 2 ^ 53)" by (simp only: backoff_iter_2)
  also have "\<dots> = 3039929748475085 / 2 ^ 52" by (rule backoff_step_2)
  finally show ?thesis .
qed

lemma backoff_iter_4: "(backoff ^^ 4) SLEEP_ACTIVE = 1139973655678157 / 2 ^ 50"
proof -
  have "(backoff ^^ 4) SLEEP_ACTIVE = backoff ((backoff ^^ 3) SLEEP_ACTIVE)"
    by (simp add: eval_nat_numeral)
  also have "\<dots> = backoff (3039929748475085 / 2 ^ 52)" by (simp only: backoff_iter_3)
  also have "\<dots> = 1139973655678157 / 2 ^ 50" by (rule backoff_step_3)
  finally show ?thesis .
qed

lemma backoff_iter_5: "(backoff ^^ 5) SLEEP_ACTIVE = 3419920967034471 / 2 ^ 51"
proof -
  have "(backoff ^^ 5) SLEEP_ACTIVE = backoff ((backoff ^^ 4) SLEEP_ACTIVE)"
    by (simp add: eval_nat_numeral)
  also have "\<dots> = backoff (1139973655678157 / 2 ^ 50)" by (simp only: backoff_iter_4)
  also have "\<dots> = 3419920967034471 / 2 ^ 51" by (rule backoff_step_4)
  finally show ?thesis .
qed

lemma backoff_iter_6: "(backoff ^^ 6) SLEEP_ACTIVE = 2564940725275853 / 2 ^ 50"
proof -
  have "(backoff ^^ 6) SLEEP_ACTIVE = backoff ((backoff ^^ 5) SLEEP_ACTIVE)"
    by (simp add: eval_nat_numeral)
  also have "\<dots> = backoff (3419920967034471 / 2 ^ 51)" by (simp only: backoff_iter_5)
  also have "\<dots> = 2564940725275853 / 2 ^ 50" by (rule backoff_step_5)
  finally show ?thesis .
qed

lemma backoff_iter_7: "(backoff ^^ 7) SLEEP_ACTIVE = 7694822175827559 / 2 ^ 51"
proof -
  have "(backoff ^^ 7) SLEEP_ACTIVE = backoff ((backoff ^^ 6) SLEEP_ACTIVE)"
    by (simp add: eval_nat_numeral)
  also have "\<dots> = backoff (2564940725275853 / 2 ^ 50)" by (simp only: backoff_iter_6)
  also have "\<dots> = 7694822175827559 / 2 ^ 51" by (rule backoff_step_6)
  finally show ?thesis .
qed

lemma backoff_iter_8: "(backoff ^^ 8) SLEEP_ACTIVE = 5"
proof -
  have "(backoff ^^ 8) SLEEP_ACTIVE = backoff ((backoff ^^ 7) SLEEP_ACTIVE)"
    by (simp add: eval_nat_numeral)
  also have "\<dots> = backoff (7694822175827559 / 2 ^ 51)" by (simp only: backoff_iter_7)
  also have "\<dots> = 5" by (rule backoff_step_7)
  finally show ?thesis .
qed

lemma backoff_stays: "(backoff ^^ k) 5 = 5"
  by (induction k) (simp_all add: backoff_idle)

lemma backoff_capped:
  assumes "8 \<le> n"
  shows "(backoff ^^ n) SLEEP_ACTIVE = 5"
proof -
  from assms obtain k where n: "n = k + 8" by (metis le_add_diff_inverse2)
  show ?thesis
    unfolding n funpow_add by (simp add: backoff_iter_8 backoff_stays)
qed

lemma closed_form_capped:
  assumes "8 \<le> n"
  shows "min (0.2 * 1.5 ^ n) 5 = (5::real)"
proof -
  have a: "(1.5::real) ^ 8 \<le> 1.5 ^ n" using assms by (intro power_increasing) simp_all
  have b: "(25::real) \<le> 1.5 ^ 8" by (simp add: power_divide)
  from a b have "(25::real) \<le> 1.5 ^ n" by (rule order_trans [rotated])
  then have "(5::real) \<le> 0.2 * 1.5 ^ n" by linarith
  then show ?thesis by (rule min_absorb2)
qed

lemma backoff_close: "\<bar>(backoff ^^ n) SLEEP_ACTIVE - min (0.2 * 1.5 ^ n) 5\<bar> \<le> 1 / 10 ^ 15"
proof -
  consider "n = 0" | "n = 1" | "n = 2" | "n = 3" | "n = 4" | "n = 5" | "n = 6" | "n = 7" | "8 \<le> n"
    by linarith
  then show ?thesis
  proof cases
    case 1
    show ?thesis unfolding 1 backoff_iter_0 by (simp add: power_divide)
  next
    case 2
    show ?thesis unfolding 2 backoff_iter_1 by (simp add: power_divide)
  next
    case 3
    show ?thesis unfolding 3 backoff_iter_2 by (simp add: power_divide)
  next
    case 4
    show ?thesis unfolding 4 backoff_iter_3 by (simp add: power_divide)
  next
    case 5
    show ?thesis unfolding 5 backoff_iter_4 by (simp add: power_divide)
  next
    case 6
    show ?thesis unfolding 6 backoff_iter_5 by (simp add: power_divide)
  next
    case 7
    show ?thesis unfolding 7 backoff_iter_6 by (simp add: power_divide)
  next
    case 8
    show ?thesis unfolding 8 backoff_iter_7 by (simp add: power_divide)
  next
    case 9
    show ?thesis unfolding backoff_capped [OF 9] closed_form_capped [OF 9] by simp
  qed
qed

lemma idle_iteration:
  assumes "select_pending d = []" and "env_time env - last_refresh_time s < REFRESH_INTERVAL"
  shows "daemon_iteration env s d = (s\<lparr>sleep_time := backoff (sleep_time s)\<rparr>, d, [])"
  using assms by (simp add: daemon_iteration_def)

lemma refresh_iteration:
  assumes "select_pending d = []" and "env_time env - last_refresh_time s \<ge> REFRESH_INTERVAL"
  shows "sleep_time (fst (daemon_iteration env s d)) = sleep_time s"
  using assms by (simp add: daemon_iteration_def split_beta)

lemma idle_passes:
  assumes "select_pending d = []"
    and "\<forall>env \<in> set envs. env_time env - last_refresh_time s < REFRESH_INTERVAL"
  shows "fst (daemon_passes envs s d)
           = s\<lparr>sleep_time := (backoff ^^ length envs) (sleep_time s)\<rparr>
       \<and> fst (snd (daemon_passes envs s d)) = d"
  using assms
proof (induction envs arbitrary: s)
  case Nil
  then show ?case by simp
next
  case (Cons env envs)
  let ?s1 = "s\<lparr>sleep_time := backoff (sleep_time s)\<rparr>"
  have it: "daemon_iteration env s d = (?s1, d, [])"
    using Cons.prems by (intro idle_iteration) simp_all
  have ih: "fst (daemon_passes envs ?s1 d)
           = ?s1\<lparr>sleep_time := (backoff ^^ length envs) (sleep_time ?s1)\<rparr>
       \<and> fst (snd (daemon_passes envs ?s1 d)) = d"
    using Cons.prems by (intro Cons.IH) simp_all
  have st: "(backoff ^^ length envs) (backoff (sleep_time s))
      = (backoff ^^ Suc (length envs)) (sleep_time s)"
    by (simp only: funpow_Suc_right o_apply)
  have "fst (daemon_passes envs ?s1 d)
      = s\<lparr>sleep_time := (backoff ^^ Suc (length envs)) (sleep_time s)\<rparr>"
    using ih st by simp
  with ih show ?case by (simp add: it split_beta del: funpow.simps)
qed

text \<open>
  C5, as the code has it (intervals are binary64 floats). A pass that services requests
  sets the interval to the float 0.2, that is 3602879701896397 / 2 ^ 54. Each idle pass
  after it replaces the interval \<open>x\<close> by \<open>backoff x\<close>, the smaller of the rounded product
  \<open>x * 1.5\<close> and 5, so N idle passes leave the N-fold \<open>backoff\<close> of the float 0.2. This
  is within 1e-15 of \<open>min (0.2 * 1.5 ^ N) 5\<close>, and it is exactly 5 from N = 8 on. In
  general N idle passes take any interval \<open>x\<close> to the N-fold \<open>backoff\<close> of \<open>x\<close>. A pass
  that runs the periodic refresh leaves the interval as it is, and the daemon starts
  with the interval 5.
\<close>

theorem backoff_after_request:
  assumes "select_pending d0 \<noteq> []" and "daemon_iteration env0 s0 d0 = (s, d, ev)"
    and "\<forall>env \<in> set envs. env_time env - last_refresh_time s0 < REFRESH_INTERVAL"
  shows "sleep_time s = SLEEP_ACTIVE
    \<and> SLEEP_ACTIVE = 3602879701896397 / 2 ^ 54
    \<and> sleep_time (fst (daemon_passes envs s d)) = (backoff ^^ length envs) SLEEP_ACTIVE
    \<and> \<bar>sleep_time (fst (daemon_passes envs s d)) - min (0.2 * 1.5 ^ length envs) 5\<bar>
        \<le> 1 / 10 ^ 15
    \<and> (8 \<le> length envs \<longrightarrow> sleep_time (fst (daemon_passes envs s d)) = 5)
    \<and> (select_pending d1 = []
         \<and> (\<forall>env \<in> set envs1. env_time env - last_refresh_time s1 < REFRESH_INTERVAL)
        \<longrightarrow> sleep_time (fst (daemon_passes envs1 s1 d1))
             = (backoff ^^ length envs1) (sleep_time s1))
    \<and> (select_pending d1 = [] \<and> env_time env1 - last_refresh_time s1 \<ge> REFRESH_INTERVAL
        \<longrightarrow> sleep_time (fst (daemon_iteration env1 s1 d1)) = sleep_time s1)
    \<and> sleep_time (fst (daemon_start env1 d1)) = SLEEP_IDLE
    \<and> SLEEP_IDLE = 5"
proof -
  from daemon_iteration_requests [OF assms(1), of env0 s0] assms(2)
  have s: "s = s0\<lparr>sleep_time := SLEEP_ACTIVE\<rparr>"
    and d: "d = fst (fetch_and_store_batch (env_yf env0) (env_clock env0)
                 (map snd (select_pending d0)) (snd (dequeue d0)))"
    by simp_all
  have 1: "sleep_time s = SLEEP_ACTIVE" by (simp add: s)
  have p: "select_pending d = []"
    using dequeue_none_pending [of d0] batch_keeps_requests
    by (simp add: d select_pending_def)
  have i: "\<forall>env \<in> set envs. env_time env - last_refresh_time s < REFRESH_INTERVAL"
    using assms(3) by (simp add: s)
  have 2: "sleep_time (fst (daemon_passes envs s d)) = (backoff ^^ length envs) SLEEP_ACTIVE"
    using idle_passes [OF p i] 1 by simp
  have 3: "\<bar>sleep_time (fst (daemon_passes envs s d)) - min (0.2 * 1.5 ^ length envs) 5\<bar>
        \<le> 1 / 10 ^ 15"
    unfolding 2 by (rule backoff_close)
  have 4: "8 \<le> length envs \<longrightarrow> sleep_time (fst (daemon_passes envs s d)) = 5"
    unfolding 2 by (intro impI) (rule backoff_capped)
  have 5: "select_pending d1 = []
         \<and> (\<forall>env \<in> set envs1. env_time env - last_refresh_time s1 < REFRESH_INTERVAL)
        \<longrightarrow> sleep_time (fst (daemon_passes envs1 s1 d1))
             = (backoff ^^ length envs1) (sleep_time s1)"
  proof (intro impI, elim conjE)
    assume a: "select_pending d1 = []"
      "\<forall>env \<in> set envs1. env_time env - last_refresh_time s1 < REFRESH_INTERVAL"
    have "sleep_time (fst (daemon_passes envs1 s1 d1))
        = sleep_time (s1\<lparr>sleep_time := (backoff ^^ length envs1) (sleep_time s1)\<rparr>)"
      using idle_passes [OF a] by simp
    then show "sleep_time (fst (daemon_passes envs1 s1 d1))
             = (backoff ^^ length envs1) (sleep_time s1)" by simp
  qed
  have 6: "select_pending d1 = [] \<and> env_time env1 - last_refresh_time s1 \<ge> REFRESH_INTERVAL
        \<longrightarrow> sleep_time (fst (daemon_iteration env1 s1 d1)) = sleep_time s1"
    by (simp add: refresh_iteration)
  have 7: "sleep_time (fst (daemon_start env1 d1)) = SLEEP_IDLE"
    by (simp add: daemon_start_def split_beta)
  have 8: "SLEEP_IDLE = 5" by (simp add: SLEEP_IDLE_def)
  from 1 sleep_active_value 2 3 4 5 6 7 8 show ?thesis by (intro conjI) assumption+
qed

theorem backoff_after_request_witness:
  "sleep_time (fst (daemon_iteration quiet_env start_state queued_db))
     = 3602879701896397 / 2 ^ 54
   \<and> sleep_time (fst (daemon_passes [quiet_env, quiet_env]
        (fst (daemon_iteration quiet_env start_state queued_db))
        (fst (snd (daemon_iteration quiet_env start_state queued_db)))))
     = 4053239664633447 / 2 ^ 53
   \<and> sleep_time (fst (daemon_iteration due_env start_state empty_db)) = 5"
proof -
  have h1: "select_pending queued_db \<noteq> []"
    by (simp add: select_pending_def queued_db_def empty_db_def)
  have h2: "daemon_iteration quiet_env start_state queued_db
     = (fst (daemon_iteration quiet_env start_state queued_db),
        fst (snd (daemon_iteration quiet_env start_state queued_db)),
        snd (snd (daemon_iteration quiet_env start_state queued_db)))" by simp
  have h3: "\<forall>env \<in> set [quiet_env, quiet_env].
      env_time env - last_refresh_time start_state < REFRESH_INTERVAL"
    by (simp add: quiet_env_def start_state_def REFRESH_INTERVAL_def)
  note t = backoff_after_request [OF h1 h2 h3, where ?d1.0 = empty_db and ?env1.0 = due_env
      and ?s1.0 = start_state and ?envs1.0 = "[]"]
  note t1 = t [THEN conjunct1]
  note t2 = t [THEN conjunct2, THEN conjunct1]
  note t3 = t [THEN conjunct2, THEN conjunct2, THEN conjunct1]
  note t7 = t [THEN conjunct2, THEN conjunct2, THEN conjunct2, THEN conjunct2, THEN conjunct2,
      THEN conjunct2, THEN conjunct1]
  have 1: "sleep_time (fst (daemon_iteration quiet_env start_state queued_db))
     = 3602879701896397 / 2 ^ 54"
    using t1 t2 by (rule trans)
  have l: "length [quiet_env, quiet_env] = 2" by simp
  have 2: "sleep_time (fst (daemon_passes [quiet_env, quiet_env]
        (fst (daemon_iteration quiet_env start_state queued_db))
        (fst (snd (daemon_iteration quiet_env start_state queued_db)))))
     = 4053239664633447 / 2 ^ 53"
    using t3 unfolding l backoff_iter_2 .
  have d: "select_pending empty_db = []
      \<and> REFRESH_INTERVAL \<le> env_time due_env - last_refresh_time start_state"
    by (simp add: select_pending_def empty_db_def due_env_def start_state_def REFRESH_INTERVAL_def)
  have 3: "sleep_time (fst (daemon_iteration due_env start_state empty_db)) = 5"
    using t7 [THEN mp, OF d] by (simp add: start_state_def)
  from 1 2 3 show ?thesis by (intro conjI) assumption+
qed

text \<open>
  C5 as stated fails twice. A pass that runs the periodic refresh does not reset the
  interval: from 5 it stays 5 and does not become the float 0.2. And the daemon starts
  at 5, so one idle pass after the start sleeps 5, while \<open>min (0.2 * 1.5) 5\<close> is 0.3.
\<close>

theorem backoff_refresh_counterexample:
  "select_pending empty_db = []
   \<and> REFRESH_INTERVAL \<le> env_time due_env - last_refresh_time start_state
   \<and> sleep_time start_state = 5
   \<and> sleep_time (fst (daemon_iteration due_env start_state empty_db)) = 5
   \<and> SLEEP_ACTIVE = 3602879701896397 / 2 ^ 54
   \<and> sleep_time (fst (daemon_iteration due_env start_state empty_db)) \<noteq> SLEEP_ACTIVE
   \<and> daemon_start boot_env empty_db = (start_state, empty_db, [REFRESH_EMPTY])
   \<and> env_time quiet_env - last_refresh_time start_state < REFRESH_INTERVAL
   \<and> sleep_time (fst (daemon_passes [quiet_env] start_state empty_db)) = 5
   \<and> min (0.2 * 1.5 ^ 1) 5 = (3 / 10 :: real)"
  unfolding sleep_active_value
  by (simp add: select_pending_def empty_db_def due_env_def quiet_env_def boot_env_def
        start_state_def REFRESH_INTERVAL_def SLEEP_IDLE_def backoff_idle
        daemon_iteration_def daemon_start_def refresh_all_tickers_def)

section \<open>Rows written by a batch\<close>

lemma updates_append: "updates (ev1 @ ev2) = updates ev1 @ updates ev2"
  by (simp add: updates_def map_filter_app)

lemma updates_Nil: "updates [] = []"
  by (simp add: updates_def List.map_filter_def)

lemma rows_kept_refl: "rows_kept T d d"
  by (simp add: rows_kept_def)

lemma rows_kept_trans:
  assumes "rows_kept T1 d d1" and "rows_kept T2 d1 d2"
  shows "rows_kept (T1 \<union> T2) d d2"
proof -
  note a = assms(1) [unfolded rows_kept_def]
  note b = assms(2) [unfolded rows_kept_def]
  have 1: "\<forall>r \<in> set (prices d). pr_ticker r \<notin> T1 \<union> T2 \<longrightarrow> r \<in> set (prices d2)"
    using a [THEN conjunct1] b [THEN conjunct1] by blast
  have 2: "\<forall>r \<in> set (stocks d). st_ticker r \<notin> T1 \<union> T2 \<longrightarrow> r \<in> set (stocks d2)"
    using a [THEN conjunct2, THEN conjunct1] b [THEN conjunct2, THEN conjunct1] by blast
  have 3: "pr_ticker ` set (prices d) \<subseteq> pr_ticker ` set (prices d2)"
    using a [THEN conjunct2, THEN conjunct2, THEN conjunct1]
      b [THEN conjunct2, THEN conjunct2, THEN conjunct1] by (rule subset_trans)
  have 4: "st_ticker ` set (stocks d) \<subseteq> st_ticker ` set (stocks d2)"
    using a [THEN conjunct2, THEN conjunct2, THEN conjunct2, THEN conjunct1]
      b [THEN conjunct2, THEN conjunct2, THEN conjunct2, THEN conjunct1] by (rule subset_trans)
  have 5: "\<exists>xs. price_history d2 = price_history d @ xs"
    using a b by (elim conjE exE) simp
  have 6: "\<exists>xs. tbl_rows (balance_sheet d2) = tbl_rows (balance_sheet d) @ xs"
    using a b by (elim conjE exE) simp
  have 7: "\<exists>xs. tbl_rows (income_statement d2) = tbl_rows (income_statement d) @ xs"
    using a b by (elim conjE exE) simp
  have 8: "\<exists>xs. tbl_rows (cashflow_statement d2) = tbl_rows (cashflow_statement d) @ xs"
    using a b by (elim conjE exE) simp
  from 1 2 3 4 5 6 7 8 show ?thesis unfolding rows_kept_def by (intro conjI) assumption+
qed

lemma rows_kept_stock: "st_ticker r = tk \<Longrightarrow> rows_kept {tk} d (insert_or_replace_stock r d)"
  by (force simp: rows_kept_def insert_or_replace_stock_def)

lemma rows_kept_price: "pr_ticker r = tk \<Longrightarrow> rows_kept {tk} d (insert_or_replace_price r d)"
  by (force simp: rows_kept_def insert_or_replace_price_def)

lemma rows_kept_history: "rows_kept {} d (insert_or_ignore_history r d)"
  by (simp add: rows_kept_def insert_or_ignore_history_def)

lemma rows_kept_fundamentals: "rows_kept {} d (snd (try_fundamentals t tk d))"
  unfolding rows_kept_def try_fundamentals_balance try_fundamentals_income
    try_fundamentals_cashflow try_fundamentals_frame
  using store_statement_prefix [of balance_values tk "yf_balance_sheet t" "balance_sheet d"]
    store_statement_prefix [of income_values tk "yf_financials t" "income_statement d"]
    store_statement_prefix [of cashflow_values tk "yf_cashflow t" "cashflow_statement d"]
  by simp

lemma rows_kept_body:
  assumes "st_ticker row = tk"
  shows "rows_kept {tk} d (body_writes clk t tk price row d)"
proof -
  let ?d1 = "insert_or_replace_stock row d"
  let ?d2 = "insert_or_replace_price
          \<lparr>pr_ticker = tk, pr_date = py_now clk, pr_close = to_sql price,
           pr_last_updated = sql_now clk\<rparr> ?d1"
  let ?d3 = "insert_or_ignore_history
          \<lparr>ph_ticker = tk, ph_date = sql_today clk, ph_close = to_sql price,
           ph_last_updated = sql_now clk\<rparr> ?d2"
  have 1: "rows_kept {tk} d ?d1" by (rule rows_kept_stock [OF assms])
  have 2: "rows_kept {tk} ?d1 ?d2" by (rule rows_kept_price) simp
  have 3: "rows_kept {} ?d2 ?d3" by (rule rows_kept_history)
  have 4: "rows_kept {} ?d3 (snd (try_fundamentals t tk ?d3))"
    by (rule rows_kept_fundamentals)
  have "rows_kept ((({tk} \<union> {tk}) \<union> {}) \<union> {}) d (snd (try_fundamentals t tk ?d3))"
    by (rule rows_kept_trans [OF rows_kept_trans [OF rows_kept_trans [OF 1 2] 3] 4])
  then show ?thesis by (simp add: body_writes_def)
qed

lemma stored_body:
  assumes "st_ticker row = tk" and "st_price row = to_sql price"
  shows "stored clk tk price (body_writes clk t tk price row d)"
proof -
  let ?r = "\<lparr>ph_ticker = tk, ph_date = sql_today clk, ph_close = to_sql price,
           ph_last_updated = sql_now clk\<rparr>"
  have 1: "\<lparr>pr_ticker = tk, pr_date = py_now clk, pr_close = to_sql price,
      pr_last_updated = sql_now clk\<rparr> \<in> set (prices (body_writes clk t tk price row d))"
    by (simp add: body_writes_def try_fundamentals_frame insert_or_ignore_history_def
          insert_or_replace_price_def)
  have "row \<in> set (stocks (body_writes clk t tk price row d))"
    by (simp add: body_writes_def try_fundamentals_frame insert_or_ignore_history_def
          insert_or_replace_price_def insert_or_replace_stock_def)
  with assms have 2: "\<exists>r \<in> set (stocks (body_writes clk t tk price row d)).
      st_ticker r = tk \<and> st_price r = to_sql price" by blast
  have "(tk, sql_today clk) \<in> history_key ` set (price_history (insert_or_ignore_history ?r d))"
  proof (cases "\<exists>x \<in> set (price_history d). ph_ticker x = tk \<and> ph_date x = sql_today clk")
    case True
    then obtain x where "x \<in> set (price_history d)" "history_key x = (tk, sql_today clk)"
      by (auto simp: history_key_def)
    then have "(tk, sql_today clk) \<in> history_key ` set (price_history d)" by force
    with True show ?thesis by (simp add: insert_or_ignore_history_def)
  next
    case False
    then show ?thesis by (auto simp: insert_or_ignore_history_def history_key_def)
  qed
  then have 3: "(tk, sql_today clk)
      \<in> history_key ` set (price_history (body_writes clk t tk price row d))"
    by (simp only: price_history_body_writes)
  from 1 2 3 show ?thesis unfolding stored_def by (intro conjI) assumption+
qed

lemma stored_kept:
  assumes "stored clk tk p d" and "rows_kept T d d'" and "tk \<notin> T"
  shows "stored clk tk p d'"
proof -
  note k = assms(2) [unfolded rows_kept_def]
  note s = assms(1) [unfolded stored_def]
  have 1: "\<lparr>pr_ticker = tk, pr_date = py_now clk, pr_close = to_sql p,
      pr_last_updated = sql_now clk\<rparr> \<in> set (prices d')"
    using s [THEN conjunct1] k [THEN conjunct1] assms(3) by auto
  have 2: "\<exists>r \<in> set (stocks d'). st_ticker r = tk \<and> st_price r = to_sql p"
    using s [THEN conjunct2, THEN conjunct1] k [THEN conjunct2, THEN conjunct1] assms(3) by blast
  obtain xs where "price_history d' = price_history d @ xs" using k by blast
  then have 3: "(tk, sql_today clk) \<in> history_key ` set (price_history d')"
    using s [THEN conjunct2, THEN conjunct2] by auto
  from 1 2 3 show ?thesis unfolding stored_def by (intro conjI) assumption+
qed

lemma snapshot_price: "snapshot clk tk p info = Inr (row, cur) \<Longrightarrow> st_price row = to_sql p"
  by (auto simp: snapshot_def bind_err_def Let_def split: sum.splits)

text \<open>One pass of the loop body: either nothing is written, or the update is.\<close>

lemma process_ticker_step:
  "fst (process_ticker yf clk tk c) = c \<and> updates (snd (process_ticker yf clk tk c)) = []
     \<and> (\<forall>t e. FUNDAMENTALS_ERROR t e \<notin> set (snd (process_ticker yf clk tk c)))
   \<or> (\<exists>t price row. updates (snd (process_ticker yf clk tk c)) = [(tk, price)]
        \<and> working (fst (process_ticker yf clk tk c)) = body_writes clk t tk price row (working c)
        \<and> st_ticker row = tk \<and> st_price row = to_sql price)"
proof (cases rule: ticker_body_cases [of yf clk tk])
  case (error e)
  have "process_ticker yf clk tk c = (c, [ERROR tk e])"
    using error [of c] by (simp add: process_ticker_def)
  then show ?thesis by (simp add: updates_def List.map_filter_def)
next
  case skip
  have "process_ticker yf clk tk c = (c, [SKIP tk])"
    using skip [of c] by (simp add: process_ticker_def)
  then show ?thesis by (simp add: updates_def List.map_filter_def)
next
  case (update t price row cur)
  from update(4) [of c] obtain c' where
    tb: "ticker_body yf clk tk c =
              (None, c', SYNC tk # (case fst (try_fundamentals t tk empty_db) of
                   None \<Rightarrow> [] | Some e \<Rightarrow> [FUNDAMENTALS_ERROR tk e]) @ [UPDATE tk price cur])"
    and w: "working c' = body_writes clk t tk price row (working c)" by blast
  have p: "process_ticker yf clk tk c =
              (c', SYNC tk # (case fst (try_fundamentals t tk empty_db) of
                   None \<Rightarrow> [] | Some e \<Rightarrow> [FUNDAMENTALS_ERROR tk e]) @ [UPDATE tk price cur])"
    by (simp add: process_ticker_def tb)
  have u: "updates (snd (process_ticker yf clk tk c)) = [(tk, price)]"
    by (simp add: p updates_def List.map_filter_def split: option.splits)
  have "updates (snd (process_ticker yf clk tk c)) = [(tk, price)]
        \<and> working (fst (process_ticker yf clk tk c)) = body_writes clk t tk price row (working c)
        \<and> st_ticker row = tk \<and> st_price row = to_sql price"
    using u w snapshot_ticker [OF update(3)] snapshot_price [OF update(3)] by (simp add: p)
  then show ?thesis by blast
qed

lemma process_ticker_kept:
  "rows_kept (fst ` set (updates (snd (process_ticker yf clk tk c)))) (working c)
     (working (fst (process_ticker yf clk tk c)))"
  using process_ticker_step [of yf clk tk c]
  by (auto simp: rows_kept_refl rows_kept_body)

lemma process_ticker_stored:
  assumes "map_of (rev (updates (snd (process_ticker yf clk tk c)))) t = Some p"
  shows "stored clk t p (working (fst (process_ticker yf clk tk c)))"
  using process_ticker_step [of yf clk tk c] assms
  by (auto simp: stored_body split: if_splits)

lemma process_ticker_fundamentals_error:
  assumes "FUNDAMENTALS_ERROR t e \<in> set (snd (process_ticker yf clk tk c))"
  shows "t \<in> fst ` set (updates (snd (process_ticker yf clk tk c)))"
proof (cases rule: process_ticker_cases [of yf clk tk])
  case (error e)
  with assms show ?thesis by simp
next
  case skip
  with assms show ?thesis by simp
next
  case (update tkr price row cur)
  from update(4) [of c] obtain c' where
    p: "process_ticker yf clk tk c =
              (c', SYNC tk # (case fst (try_fundamentals tkr tk empty_db) of
                   None \<Rightarrow> [] | Some e \<Rightarrow> [FUNDAMENTALS_ERROR tk e]) @ [UPDATE tk price cur])"
    by blast
  from assms have "t = tk" by (auto simp: p split: option.splits)
  then show ?thesis
    by (simp add: p updates_def List.map_filter_def split: option.splits)
qed

lemma batch_loop_kept:
  "rows_kept (fst ` set (updates (snd (batch_loop yf clk ts c)))) (working c)
     (working (fst (batch_loop yf clk ts c)))"
proof (induction ts arbitrary: c)
  case Nil
  show ?case by (simp add: rows_kept_refl)
next
  case (Cons tk ts)
  show ?case
    unfolding batch_loop_Cons fst_conv snd_conv updates_append set_append image_Un
    by (rule rows_kept_trans [OF process_ticker_kept Cons.IH])
qed

lemma batch_loop_stored:
  assumes "map_of (rev (updates (snd (batch_loop yf clk ts c)))) t = Some p"
  shows "stored clk t p (working (fst (batch_loop yf clk ts c)))"
  using assms
proof (induction ts arbitrary: c)
  case Nil
  then show ?case by (simp add: updates_Nil)
next
  case (Cons tk ts)
  let ?c1 = "fst (process_ticker yf clk tk c)"
  let ?e1 = "snd (process_ticker yf clk tk c)"
  let ?e2 = "snd (batch_loop yf clk ts ?c1)"
  have m: "(map_of (rev (updates ?e1)) ++ map_of (rev (updates ?e2))) t = Some p"
    using Cons.prems
    unfolding batch_loop_Cons snd_conv updates_append rev_append map_of_append .
  show ?case
  proof (cases "map_of (rev (updates ?e2)) t")
    case (Some q)
    with m have "map_of (rev (updates ?e2)) t = Some p" by (simp add: map_add_def)
    then show ?thesis
      unfolding batch_loop_Cons fst_conv by (rule Cons.IH)
  next
    case None
    with m have "map_of (rev (updates ?e1)) t = Some p" by (simp add: map_add_def)
    then have s: "stored clk t p (working ?c1)" by (rule process_ticker_stored)
    from None have n: "t \<notin> fst ` set (updates ?e2)" by (simp add: map_of_eq_None_iff)
    show ?thesis
      unfolding batch_loop_Cons fst_conv
      by (rule stored_kept [OF s batch_loop_kept n])
  qed
qed

lemma batch_loop_fundamentals_error:
  assumes "FUNDAMENTALS_ERROR t e \<in> set (snd (batch_loop yf clk ts c))"
  shows "t \<in> fst ` set (updates (snd (batch_loop yf clk ts c)))"
  using assms
proof (induction ts arbitrary: c)
  case Nil
  then show ?case by simp
next
  case (Cons tk ts)
  from Cons.prems Cons.IH [of "fst (process_ticker yf clk tk c)"]
    process_ticker_fundamentals_error [of t e yf clk tk c]
  show ?case
    unfolding batch_loop_Cons snd_conv updates_append set_append image_Un by blast
qed

lemma batch_stored:
  assumes "map_of (rev (updates (snd (fetch_and_store_batch yf clk tickers d)))) t = Some p"
  shows "stored clk t p (fst (fetch_and_store_batch yf clk tickers d))"
  using assms batch_loop_stored [of yf clk "map upper tickers" "connect d" t p]
  by (simp add: fetch_and_store_batch_loop)

lemma batch_fundamentals_error:
  assumes "FUNDAMENTALS_ERROR t e \<in> set (snd (fetch_and_store_batch yf clk tickers d))"
  shows "t \<in> fst ` set (updates (snd (fetch_and_store_batch yf clk tickers d)))"
  using assms batch_loop_fundamentals_error [of t e yf clk "map upper tickers" "connect d"]
  by (simp add: fetch_and_store_batch_loop)

lemma fast_price_failure:
  assumes "yf_fast_last_price t = Inl e"
  shows "resolve_price t = resolve_price (t\<lparr>yf_fast_last_price := Inr None\<rparr>)"
  using assms by (simp add: resolve_price_def)

text \<open>
  C6. A ticker whose processing raises (any exception of the loop body) or finds no
  price is logged with its upper-cased symbol and the cause, and the batch goes on: the
  database the batch leaves is the one it leaves without that ticker in the list (rows
  of earlier tickers stay, later tickers are processed as before), the log is the log
  without that ticker plus its one line, and every ticker of the list reaches exactly
  one outcome line (skip, error or update), in order. The function returns for every
  input: nothing escapes the call. What it returns is the working state of the
  connection after the loop, made durable by the final commit. The rows the database
  held when the failing ticker was reached are kept: those of \<^verbatim>\<open>price_history\<close> and of
  the statement tables all, in place, those of \<^verbatim>\<open>prices\<close> and \<^verbatim>\<open>stocks\<close> unless a later
  ticker of the list is updated under the same symbol, which replaces them. For every
  ticker with an update line, the database returned holds the \<^verbatim>\<open>prices\<close> row written by
  its last update, a \<^verbatim>\<open>stocks\<close> row with that price and a \<^verbatim>\<open>price_history\<close> row for the
  day. The failures caught inside the body do not end a ticker either: one in the
  statement fetcher is logged and the ticker is still updated, one of the fast price
  lookup is taken as a missing price.
\<close>

theorem batch_failure_isolated:
  assumes "fst (ticker_body yf clk (upper t) c0) = Some e \<and> x = ERROR (upper t) e
         \<or> snd (snd (ticker_body yf clk (upper t) c0)) = [SKIP (upper t)] \<and> x = SKIP (upper t)"
  shows "fst (fetch_and_store_batch yf clk (ts1 @ t # ts2) d)
           = fst (fetch_and_store_batch yf clk (ts1 @ ts2) d)
    \<and> (\<exists>ev1 ev2. snd (fetch_and_store_batch yf clk (ts1 @ t # ts2) d) = ev1 @ x # ev2
          \<and> snd (fetch_and_store_batch yf clk (ts1 @ ts2) d) = ev1 @ ev2)
    \<and> List.map_filter outcome_ticker (snd (fetch_and_store_batch yf clk (ts1 @ t # ts2) d))
          = map upper (ts1 @ t # ts2)
    \<and> fst (fetch_and_store_batch yf clk (ts1 @ t # ts2) d)
          = working (fst (batch_loop yf clk (map upper (ts1 @ t # ts2)) (connect d)))
    \<and> (\<exists>ev2. snd (fetch_and_store_batch yf clk (ts1 @ t # ts2) d)
                = snd (fetch_and_store_batch yf clk ts1 d) @ x # ev2
          \<and> rows_kept (fst ` set (updates ev2)) (fst (fetch_and_store_batch yf clk ts1 d))
              (fst (fetch_and_store_batch yf clk (ts1 @ t # ts2) d)))
    \<and> (map_of (rev (updates (snd (fetch_and_store_batch yf clk us d1)))) tk = Some p
         \<longrightarrow> stored clk tk p (fst (fetch_and_store_batch yf clk us d1)))
    \<and> (FUNDAMENTALS_ERROR tk e1 \<in> set (snd (fetch_and_store_batch yf clk us d1))
         \<longrightarrow> tk \<in> fst ` set (updates (snd (fetch_and_store_batch yf clk us d1))))
    \<and> (yf_fast_last_price tkr = Inl e2
         \<longrightarrow> resolve_price tkr = resolve_price (tkr\<lparr>yf_fast_last_price := Inr None\<rparr>))"
proof -
  let ?c1 = "fst (batch_loop yf clk (map upper ts1) (connect d))"
  let ?e1 = "snd (batch_loop yf clk (map upper ts1) (connect d))"
  let ?r2 = "batch_loop yf clk (map upper ts2) ?c1"
  have p: "process_ticker yf clk (upper t) c = (c, [x])" for c
    by (rule process_ticker_failure [OF assms])
  have L: "batch_loop yf clk (map upper (ts1 @ t # ts2)) (connect d)
             = (fst ?r2, ?e1 @ x # snd ?r2)"
    by (simp only: map_append list.map batch_loop_append batch_loop_Cons p fst_conv snd_conv
          append.simps)
  have R: "batch_loop yf clk (map upper (ts1 @ ts2)) (connect d) = (fst ?r2, ?e1 @ snd ?r2)"
    by (simp only: map_append batch_loop_append)
  have 1: "fst (fetch_and_store_batch yf clk (ts1 @ t # ts2) d)
           = fst (fetch_and_store_batch yf clk (ts1 @ ts2) d)"
    by (simp only: fetch_and_store_batch_loop L R fst_conv)
  have 2: "snd (fetch_and_store_batch yf clk (ts1 @ t # ts2) d) = ?e1 @ x # snd ?r2
          \<and> snd (fetch_and_store_batch yf clk (ts1 @ ts2) d) = ?e1 @ snd ?r2"
    by (simp only: fetch_and_store_batch_loop L R snd_conv simp_thms)
  then have 2: "\<exists>ev1 ev2. snd (fetch_and_store_batch yf clk (ts1 @ t # ts2) d) = ev1 @ x # ev2
          \<and> snd (fetch_and_store_batch yf clk (ts1 @ ts2) d) = ev1 @ ev2" by blast
  have 3: "List.map_filter outcome_ticker (snd (fetch_and_store_batch yf clk (ts1 @ t # ts2) d))
          = map upper (ts1 @ t # ts2)"
    by (rule batch_outcome)
  have 4: "fst (fetch_and_store_batch yf clk (ts1 @ t # ts2) d)
          = working (fst (batch_loop yf clk (map upper (ts1 @ t # ts2)) (connect d)))"
    by (simp only: fetch_and_store_batch_loop fst_conv)
  have "snd (fetch_and_store_batch yf clk (ts1 @ t # ts2) d)
                = snd (fetch_and_store_batch yf clk ts1 d) @ x # snd ?r2
          \<and> rows_kept (fst ` set (updates (snd ?r2))) (fst (fetch_and_store_batch yf clk ts1 d))
              (fst (fetch_and_store_batch yf clk (ts1 @ t # ts2) d))"
    using batch_loop_kept [of yf clk "map upper ts2" ?c1]
    by (simp only: fetch_and_store_batch_loop L fst_conv snd_conv simp_thms)
  then have 5: "\<exists>ev2. snd (fetch_and_store_batch yf clk (ts1 @ t # ts2) d)
                = snd (fetch_and_store_batch yf clk ts1 d) @ x # ev2
          \<and> rows_kept (fst ` set (updates ev2)) (fst (fetch_and_store_batch yf clk ts1 d))
              (fst (fetch_and_store_batch yf clk (ts1 @ t # ts2) d))" by (rule exI)
  have 6: "map_of (rev (updates (snd (fetch_and_store_batch yf clk us d1)))) tk = Some p
         \<longrightarrow> stored clk tk p (fst (fetch_and_store_batch yf clk us d1))"
    by (intro impI) (rule batch_stored)
  have 7: "FUNDAMENTALS_ERROR tk e1 \<in> set (snd (fetch_and_store_batch yf clk us d1))
         \<longrightarrow> tk \<in> fst ` set (updates (snd (fetch_and_store_batch yf clk us d1)))"
    by (intro impI) (rule batch_fundamentals_error)
  have 8: "yf_fast_last_price tkr = Inl e2
         \<longrightarrow> resolve_price tkr = resolve_price (tkr\<lparr>yf_fast_last_price := Inr None\<rparr>)"
    by (intro impI) (rule fast_price_failure)
  from 1 2 3 4 5 6 7 8 show ?thesis by (intro conjI) assumption+
qed

lemma flaky_events:
  "snd (fetch_and_store_batch flaky_yf clock0 [''x'', ''bad''] empty_db)
     = [SYNC ''X'', FUNDAMENTALS_ERROR ''X'' (ProviderError ''malformed''),
        UPDATE ''X'' (Num 10) (PStr ''USD''), ERROR ''BAD'' (ProviderError ''no data'')]"
proof -
  have ux: "upper ''x'' = ''X''" by code_simp
  show ?thesis
    by (simp add: eval_defs upper_demo ux flaky_yf_def broken_balance_def)
qed

theorem batch_failure_isolated_witness:
  "fst (fetch_and_store_batch demo_yf clock0 ([''aaa''] @ ''bad'' # []) empty_db) = aaa_db
   \<and> List.map_filter outcome_ticker
        (snd (fetch_and_store_batch demo_yf clock0 ([''aaa''] @ ''bad'' # []) empty_db))
      = [''AAA'', ''BAD'']
   \<and> fst (fetch_and_store_batch demo_yf clock0 ([''noprice''] @ ''noprice'' # [''aaa'']) empty_db)
      = fst (fetch_and_store_batch demo_yf clock0 ([''noprice''] @ [''aaa'']) empty_db)
   \<and> stored clock0 ''AAA'' (Num 10)
        (fst (fetch_and_store_batch demo_yf clock0 ([''aaa''] @ ''bad'' # []) empty_db))
   \<and> FUNDAMENTALS_ERROR ''X'' (ProviderError ''malformed'')
        \<in> set (snd (fetch_and_store_batch flaky_yf clock0 ([''x''] @ ''bad'' # []) empty_db))
   \<and> stored clock0 ''X'' (Num 10)
        (fst (fetch_and_store_batch flaky_yf clock0 ([''x''] @ ''bad'' # []) empty_db))"
proof -
  have h: "fst (ticker_body demo_yf clock0 (upper ''bad'') (connect empty_db))
             = Some (ProviderError ''no data'')
           \<and> ERROR (upper ''bad'') (ProviderError ''no data'')
             = ERROR (upper ''bad'') (ProviderError ''no data'')
         \<or> snd (snd (ticker_body demo_yf clock0 (upper ''bad'') (connect empty_db)))
             = [SKIP (upper ''bad'')]
           \<and> ERROR (upper ''bad'') (ProviderError ''no data'') = SKIP (upper ''bad'')"
    by (simp add: ticker_body_def demo_yf_def upper_demo)
  have k: "fst (ticker_body demo_yf clock0 (upper ''noprice'') (connect empty_db)) = Some TypeError
           \<and> SKIP (upper ''noprice'') = ERROR (upper ''noprice'') TypeError
         \<or> snd (snd (ticker_body demo_yf clock0 (upper ''noprice'') (connect empty_db)))
             = [SKIP (upper ''noprice'')]
           \<and> SKIP (upper ''noprice'') = SKIP (upper ''noprice'')"
    by (simp add: ticker_body_def demo_yf_def upper_demo resolve_price_def priced_def bind_err_def)
  have l: "fst (ticker_body flaky_yf clock0 (upper ''bad'') (connect empty_db))
             = Some (ProviderError ''no data'')
           \<and> ERROR (upper ''bad'') (ProviderError ''no data'')
             = ERROR (upper ''bad'') (ProviderError ''no data'')
         \<or> snd (snd (ticker_body flaky_yf clock0 (upper ''bad'') (connect empty_db)))
             = [SKIP (upper ''bad'')]
           \<and> ERROR (upper ''bad'') (ProviderError ''no data'') = SKIP (upper ''bad'')"
    by (simp add: ticker_body_def flaky_yf_def upper_demo)
  note a = batch_failure_isolated [OF h, of "[''aaa'']" "[]" empty_db "[''aaa'']" empty_db
      "''AAA''" "Num 10"]
  note b = batch_failure_isolated [OF k, of "[''noprice'']" "[''aaa'']" empty_db]
  note c = batch_failure_isolated [OF l, of "[''x'']" "[]" empty_db "[''x''] @ ''bad'' # []"
      empty_db "''X''" "Num 10"]
  note a1 = a [THEN conjunct1]
  note a3 = a [THEN conjunct2, THEN conjunct2, THEN conjunct1]
  note a6 = a [THEN conjunct2, THEN conjunct2, THEN conjunct2, THEN conjunct2, THEN conjunct2,
      THEN conjunct1]
  note b1 = b [THEN conjunct1]
  note c6 = c [THEN conjunct2, THEN conjunct2, THEN conjunct2, THEN conjunct2, THEN conjunct2,
      THEN conjunct1]
  have 1: "fst (fetch_and_store_batch demo_yf clock0 ([''aaa''] @ ''bad'' # []) empty_db) = aaa_db"
    using a1 by (simp add: demo_aaa)
  have 2: "List.map_filter outcome_ticker
        (snd (fetch_and_store_batch demo_yf clock0 ([''aaa''] @ ''bad'' # []) empty_db))
      = [''AAA'', ''BAD'']"
    using a3 by (simp add: upper_demo)
  have u: "map_of (rev (updates (snd (fetch_and_store_batch demo_yf clock0 [''aaa''] empty_db))))
      ''AAA'' = Some (Num 10)"
    by (simp add: demo_aaa updates_def List.map_filter_def)
  have "stored clock0 ''AAA'' (Num 10) (fst (fetch_and_store_batch demo_yf clock0 [''aaa''] empty_db))"
    using a6 [THEN mp, OF u] .
  then have 4: "stored clock0 ''AAA'' (Num 10)
        (fst (fetch_and_store_batch demo_yf clock0 ([''aaa''] @ ''bad'' # []) empty_db))"
    unfolding 1 by (simp add: demo_aaa)
  have e: "[''x''] @ ''bad'' # [] = [''x'', ''bad'']" by simp
  have 5: "FUNDAMENTALS_ERROR ''X'' (ProviderError ''malformed'')
        \<in> set (snd (fetch_and_store_batch flaky_yf clock0 ([''x''] @ ''bad'' # []) empty_db))"
    unfolding e flaky_events by simp
  have v: "map_of (rev (updates (snd (fetch_and_store_batch flaky_yf clock0
      ([''x''] @ ''bad'' # []) empty_db)))) ''X'' = Some (Num 10)"
    unfolding e flaky_events by (simp add: updates_def List.map_filter_def)
  note 6 = c6 [THEN mp, OF v]
  from 1 2 b1 4 5 6 show ?thesis by (intro conjI) assumption+
qed

section \<open>The first write of a day\<close>

lemma insert_history_absent:
  assumes "\<forall>x \<in> set (price_history d). history_key x \<noteq> history_key r"
  shows "price_history (insert_or_ignore_history r d) = price_history d @ [r]"
  using assms by (auto simp: insert_or_ignore_history_def history_key_def)

lemma history_prefix_loop:
  "\<exists>xs. price_history (working (fst (batch_loop yf clk ts c))) = price_history (working c) @ xs"
  using history_kept_loop [of c yf clk ts] by (simp add: history_kept_def)

lemma process_ticker_first_write:
  assumes "(t, sql_today clk) \<notin> history_key ` set (price_history (working c))"
  shows "case map_of (updates (snd (process_ticker yf clk tk c))) t of
      Some p \<Rightarrow> \<lparr>ph_ticker = t, ph_date = sql_today clk, ph_close = to_sql p,
          ph_last_updated = sql_now clk\<rparr>
          \<in> set (price_history (working (fst (process_ticker yf clk tk c))))
    | None \<Rightarrow> (t, sql_today clk)
          \<notin> history_key ` set (price_history (working (fst (process_ticker yf clk tk c))))"
proof -
  from process_ticker_step [of yf clk tk c]
  consider (same) "fst (process_ticker yf clk tk c) = c"
      "updates (snd (process_ticker yf clk tk c)) = []"
    | (update) tkr price row where "updates (snd (process_ticker yf clk tk c)) = [(tk, price)]"
      "working (fst (process_ticker yf clk tk c)) = body_writes clk tkr tk price row (working c)"
    by blast
  then show ?thesis
  proof cases
    case same
    with assms show ?thesis by simp
  next
    case update
    let ?r = "\<lparr>ph_ticker = tk, ph_date = sql_today clk, ph_close = to_sql price,
           ph_last_updated = sql_now clk\<rparr>"
    have ph: "price_history (working (fst (process_ticker yf clk tk c)))
        = price_history (insert_or_ignore_history ?r (working c))"
      by (simp only: update(2) price_history_body_writes)
    show ?thesis
    proof (cases "t = tk")
      case True
      have "\<forall>x \<in> set (price_history (working c)). history_key x \<noteq> history_key ?r"
        using assms True by (auto simp: history_key_def image_iff)
      then have "price_history (insert_or_ignore_history ?r (working c))
          = price_history (working c) @ [?r]" by (rule insert_history_absent)
      then show ?thesis by (simp add: update(1) True ph)
    next
      case False
      have "set (price_history (insert_or_ignore_history ?r (working c)))
          \<subseteq> set (price_history (working c)) \<union> {?r}"
        by (auto simp: insert_or_ignore_history_def)
      then have "(t, sql_today clk)
          \<notin> history_key ` set (price_history (insert_or_ignore_history ?r (working c)))"
        using assms False by (auto simp: history_key_def)
      then show ?thesis using False by (simp add: update(1) ph)
    qed
  qed
qed

lemma batch_loop_first_write:
  assumes "(t, sql_today clk) \<notin> history_key ` set (price_history (working c))"
  shows "case map_of (updates (snd (batch_loop yf clk ts c))) t of
      Some p \<Rightarrow> \<lparr>ph_ticker = t, ph_date = sql_today clk, ph_close = to_sql p,
          ph_last_updated = sql_now clk\<rparr>
          \<in> set (price_history (working (fst (batch_loop yf clk ts c))))
    | None \<Rightarrow> (t, sql_today clk)
          \<notin> history_key ` set (price_history (working (fst (batch_loop yf clk ts c))))"
  using assms
proof (induction ts arbitrary: c)
  case Nil
  then show ?case by (simp add: updates_Nil)
next
  case (Cons tk ts)
  let ?c1 = "fst (process_ticker yf clk tk c)"
  let ?e1 = "snd (process_ticker yf clk tk c)"
  let ?e2 = "snd (batch_loop yf clk ts ?c1)"
  let ?c2 = "fst (batch_loop yf clk ts ?c1)"
  note step = process_ticker_first_write [OF Cons.prems, of yf tk]
  have m: "map_of (updates (snd (batch_loop yf clk (tk # ts) c))) t
      = (map_of (updates ?e2) ++ map_of (updates ?e1)) t"
    unfolding batch_loop_Cons snd_conv updates_append map_of_append ..
  have f: "fst (batch_loop yf clk (tk # ts) c) = ?c2"
    unfolding batch_loop_Cons fst_conv ..
  show ?case
  proof (cases "map_of (updates ?e1) t")
    case (Some p)
    with step have "\<lparr>ph_ticker = t, ph_date = sql_today clk, ph_close = to_sql p,
          ph_last_updated = sql_now clk\<rparr> \<in> set (price_history (working ?c1))" by simp
    moreover obtain xs where "price_history (working ?c2) = price_history (working ?c1) @ xs"
      using history_prefix_loop [of yf clk ts ?c1] by blast
    ultimately have "\<lparr>ph_ticker = t, ph_date = sql_today clk, ph_close = to_sql p,
          ph_last_updated = sql_now clk\<rparr> \<in> set (price_history (working ?c2))" by simp
    then show ?thesis unfolding m f by (simp add: Some map_add_def)
  next
    case None
    with step have "(t, sql_today clk) \<notin> history_key ` set (price_history (working ?c1))"
      by simp
    from Cons.IH [OF this] show ?thesis unfolding m f by (simp add: None map_add_def)
  qed
qed

lemma batch_first_write:
  assumes "(t, sql_today clk) \<notin> history_key ` set (price_history d)"
  shows "case map_of (updates (snd (fetch_and_store_batch yf clk tickers d))) t of
      Some p \<Rightarrow> \<lparr>ph_ticker = t, ph_date = sql_today clk, ph_close = to_sql p,
          ph_last_updated = sql_now clk\<rparr>
          \<in> set (price_history (fst (fetch_and_store_batch yf clk tickers d)))
    | None \<Rightarrow> (t, sql_today clk)
          \<notin> history_key ` set (price_history (fst (fetch_and_store_batch yf clk tickers d)))"
proof -
  have w: "working (connect d) = d" by (simp add: connect_def)
  have f: "fst (fetch_and_store_batch yf clk tickers d)
      = working (fst (batch_loop yf clk (map upper tickers) (connect d)))"
    and s: "snd (fetch_and_store_batch yf clk tickers d)
      = snd (batch_loop yf clk (map upper tickers) (connect d))"
    by (simp_all add: fetch_and_store_batch_loop)
  show ?thesis
    unfolding f s
    by (rule batch_loop_first_write [of t clk "connect d", unfolded w, OF assms])
qed

text \<open>
  C8. \<^verbatim>\<open>price_history\<close> is only ever extended by the batch fetcher: the rows it held
  stay as they are, in place, and new rows come after them; if no two rows shared a
  (ticker, date) before, none do after, so a row present for a key is the one first
  written. A second insert for a key already present changes nothing, and an insert
  for a key that is absent, whatever else the table holds, appends the row. For a
  ticker with no row for the day before the batch, the batch leaves the row of the
  first update of that ticker in its log, with that price, and no row for the day when
  the ticker has no update line.
\<close>

theorem price_history_first_write_wins:
  assumes "fetch_and_store_batch yf clk tickers d = (d', ev)"
  shows "(\<exists>added. price_history d' = price_history d @ added)
    \<and> (distinct (map history_key (price_history d))
         \<longrightarrow> distinct (map history_key (price_history d'))
           \<and> (\<forall>r \<in> set (price_history d). \<forall>r' \<in> set (price_history d').
                 history_key r' = history_key r \<longrightarrow> r' = r))
    \<and> (history_key r2 = history_key r1
         \<longrightarrow> insert_or_ignore_history r2 (insert_or_ignore_history r1 d)
             = insert_or_ignore_history r1 d)
    \<and> ((\<forall>x \<in> set (price_history d0). history_key x \<noteq> history_key r1)
         \<longrightarrow> price_history (insert_or_ignore_history r1 d0) = price_history d0 @ [r1])
    \<and> ((tk, sql_today clk) \<notin> history_key ` set (price_history d)
          \<and> map_of (updates ev) tk = Some p
         \<longrightarrow> \<lparr>ph_ticker = tk, ph_date = sql_today clk, ph_close = to_sql p,
              ph_last_updated = sql_now clk\<rparr> \<in> set (price_history d'))
    \<and> ((tk, sql_today clk) \<notin> history_key ` set (price_history d)
          \<and> map_of (updates ev) tk = None
         \<longrightarrow> (tk, sql_today clk) \<notin> history_key ` set (price_history d'))"
proof -
  have k: "history_kept d d'"
    using history_kept_batch [of d yf clk tickers] assms by simp
  then obtain added where a: "price_history d' = price_history d @ added"
    by (auto simp: history_kept_def)
  then have 1: "\<exists>added. price_history d' = price_history d @ added" by blast
  have 2: "distinct (map history_key (price_history d))
         \<longrightarrow> distinct (map history_key (price_history d'))
           \<and> (\<forall>r \<in> set (price_history d). \<forall>r' \<in> set (price_history d').
                 history_key r' = history_key r \<longrightarrow> r' = r)"
  proof
    assume dd: "distinct (map history_key (price_history d))"
    from k dd have d': "distinct (map history_key (price_history d'))"
      by (simp add: history_kept_def)
    then have "inj_on history_key (set (price_history d'))"
      by (simp add: distinct_map)
    moreover have "set (price_history d) \<subseteq> set (price_history d')" using a by auto
    ultimately have "\<forall>r \<in> set (price_history d). \<forall>r' \<in> set (price_history d').
                 history_key r' = history_key r \<longrightarrow> r' = r"
      by (auto dest: inj_onD)
    with d' show "distinct (map history_key (price_history d'))
           \<and> (\<forall>r \<in> set (price_history d). \<forall>r' \<in> set (price_history d').
                 history_key r' = history_key r \<longrightarrow> r' = r)" by simp
  qed
  have 3: "history_key r2 = history_key r1
         \<longrightarrow> insert_or_ignore_history r2 (insert_or_ignore_history r1 d)
             = insert_or_ignore_history r1 d"
    by (auto simp: insert_or_ignore_history_def history_key_def)
  have 4: "(\<forall>x \<in> set (price_history d0). history_key x \<noteq> history_key r1)
         \<longrightarrow> price_history (insert_or_ignore_history r1 d0) = price_history d0 @ [r1]"
    by (intro impI) (rule insert_history_absent)
  have 5: "(tk, sql_today clk) \<notin> history_key ` set (price_history d)
          \<and> map_of (updates ev) tk = Some p
         \<longrightarrow> \<lparr>ph_ticker = tk, ph_date = sql_today clk, ph_close = to_sql p,
              ph_last_updated = sql_now clk\<rparr> \<in> set (price_history d')"
  proof (intro impI, elim conjE)
    assume h: "(tk, sql_today clk) \<notin> history_key ` set (price_history d)"
      and u: "map_of (updates ev) tk = Some p"
    from batch_first_write [OF h, of yf tickers] assms u
    show "\<lparr>ph_ticker = tk, ph_date = sql_today clk, ph_close = to_sql p,
              ph_last_updated = sql_now clk\<rparr> \<in> set (price_history d')" by simp
  qed
  have 6: "(tk, sql_today clk) \<notin> history_key ` set (price_history d)
          \<and> map_of (updates ev) tk = None
         \<longrightarrow> (tk, sql_today clk) \<notin> history_key ` set (price_history d')"
  proof (intro impI, elim conjE)
    assume h: "(tk, sql_today clk) \<notin> history_key ` set (price_history d)"
      and u: "map_of (updates ev) tk = None"
    from batch_first_write [OF h, of yf tickers] assms u
    show "(tk, sql_today clk) \<notin> history_key ` set (price_history d')" by simp
  qed
  from 1 2 3 4 5 6 show ?thesis by (intro conjI) assumption+
qed

lemma later_aaa:
  "map (\<lambda>r. (ph_ticker r, ph_date r, ph_close r))
     (price_history (fst (fetch_and_store_batch later_yf clock0 [''aaa''] aaa_db)))
     = [(''AAA'', ''2024-05-01'', Some 10)]"
  "map (\<lambda>r. (pr_ticker r, pr_close r))
     (prices (fst (fetch_and_store_batch later_yf clock0 [''aaa''] aaa_db)))
     = [(''AAA'', Some 20)]"
  by (simp_all add: eval_defs upper_demo aaa_db_def later_yf_def)

lemma next_day_aaa:
  "snd (fetch_and_store_batch later_yf clock1 [''aaa''] aaa_db)
     = [SYNC ''AAA'', UPDATE ''AAA'' (Num 20) (PStr ''USD'')]"
  by (simp add: eval_defs upper_demo aaa_db_def later_yf_def)

theorem price_history_first_write_wins_witness:
  "map (\<lambda>r. (ph_ticker r, ph_date r, ph_close r))
     (price_history (fst (fetch_and_store_batch later_yf clock0 [''aaa'']
        (fst (fetch_and_store_batch demo_yf clock0 [''aaa''] empty_db)))))
     = [(''AAA'', ''2024-05-01'', Some 10)]
   \<and> map (\<lambda>r. (pr_ticker r, pr_close r))
     (prices (fst (fetch_and_store_batch later_yf clock0 [''aaa'']
        (fst (fetch_and_store_batch demo_yf clock0 [''aaa''] empty_db)))))
     = [(''AAA'', Some 20)]
   \<and> distinct (map history_key (price_history aaa_db))
   \<and> distinct (map history_key
        (price_history (fst (fetch_and_store_batch later_yf clock0 [''aaa''] aaa_db))))
   \<and> price_history aaa_db \<noteq> []
   \<and> \<lparr>ph_ticker = ''AAA'', ph_date = ''2024-05-02'', ph_close = Some 20,
        ph_last_updated = ''2024-05-02 08:00:00''\<rparr>
       \<in> set (price_history (fst (fetch_and_store_batch later_yf clock1 [''aaa''] aaa_db)))
   \<and> price_history (insert_or_ignore_history
        \<lparr>ph_ticker = ''AAA'', ph_date = ''2024-05-02'', ph_close = Some 20,
         ph_last_updated = ''2024-05-02 08:00:00''\<rparr> aaa_db)
      = price_history aaa_db @ [\<lparr>ph_ticker = ''AAA'', ph_date = ''2024-05-02'',
         ph_close = Some 20, ph_last_updated = ''2024-05-02 08:00:00''\<rparr>]"
proof -
  let ?r = "\<lparr>ph_ticker = ''AAA'', ph_date = ''2024-05-02'', ph_close = Some 20,
         ph_last_updated = ''2024-05-02 08:00:00''\<rparr>"
  have h: "fetch_and_store_batch later_yf clock0 [''aaa''] aaa_db
      = (fst (fetch_and_store_batch later_yf clock0 [''aaa''] aaa_db),
         snd (fetch_and_store_batch later_yf clock0 [''aaa''] aaa_db))" by simp
  have h1: "fetch_and_store_batch later_yf clock1 [''aaa''] aaa_db
      = (fst (fetch_and_store_batch later_yf clock1 [''aaa''] aaa_db),
         snd (fetch_and_store_batch later_yf clock1 [''aaa''] aaa_db))" by simp
  have dd: "distinct (map history_key (price_history aaa_db))"
    by (simp add: aaa_db_def)
  note t = price_history_first_write_wins [OF h, THEN conjunct2, THEN conjunct1, THEN mp, OF dd,
      THEN conjunct1]
  note s = price_history_first_write_wins [OF h1, where tk = "''AAA''" and p = "Num 20"
      and ?r1.0 = ?r and ?d0.0 = aaa_db]
  note s4 = s [THEN conjunct2, THEN conjunct2, THEN conjunct2, THEN conjunct1]
  note s5 = s [THEN conjunct2, THEN conjunct2, THEN conjunct2, THEN conjunct2, THEN conjunct1]
  have ne: "price_history aaa_db \<noteq> []" by (simp add: aaa_db_def)
  have a: "\<forall>x \<in> set (price_history aaa_db). history_key x \<noteq> history_key ?r"
    by (simp add: aaa_db_def history_key_def)
  have b: "(''AAA'', sql_today clock1) \<notin> history_key ` set (price_history aaa_db)
      \<and> map_of (updates (snd (fetch_and_store_batch later_yf clock1 [''aaa''] aaa_db))) ''AAA''
          = Some (Num 20)"
    by (simp add: next_day_aaa updates_def List.map_filter_def)
      (simp add: aaa_db_def history_key_def clock1_def)
  have 5: "?r \<in> set (price_history (fst (fetch_and_store_batch later_yf clock1 [''aaa''] aaa_db)))"
    using s5 [THEN mp, OF b] by (simp add: clock1_def)
  note 4 = s4 [THEN mp, OF a]
  from t dd later_aaa ne 5 4 show ?thesis by (simp add: demo_aaa)
qed

end
